theory Spec2Isabelle
  imports Main "HOL-Library.Word" "HOL-Library.Monad_Syntax"
begin

section \<open>The program and its environment\<close>

text \<open>
  A shallow embedding of \<^verbatim>\<open>reptyr.c\<close>. The program is a sequence of system calls, so
  every function of the source becomes a function on a \<open>world\<close>: the program's two
  globals, the answers the operating system will give to the calls still to come, and
  the effects the run has had so far. Calls that are issued at most once per run take
  their answer from a fixed record \<open>os_env\<close>; calls issued inside loops take theirs from
  a script (a list) in the world, one entry per call. A loop that finds its script empty
  has not finished yet: the model returns \<open>None\<close>.

  Platform: LP64 (\<^verbatim>\<open>long\<close> and \<^verbatim>\<open>ssize_t\<close> are 64 bits, \<^verbatim>\<open>int\<close> and \<^verbatim>\<open>pid_t\<close> 32 bits).
\<close>

subsection \<open>Constants of the C library\<close>

definition EPERM :: int where "EPERM = 1"
definition EINTR :: int where "EINTR = 4"
definition ERANGE :: int where "ERANGE = 34"
definition SIGWINCH :: int where "SIGWINCH = 28"

definition LONG_MAX :: int where "LONG_MAX = 2 ^ 63 - 1"
definition LONG_MIN :: int where "LONG_MIN = - (2 ^ 63)"

subsection \<open>Data\<close>

text \<open>\<^verbatim>\<open>struct winsize\<close>: four \<^verbatim>\<open>unsigned short\<close> fields, in this order.\<close>

record winsize =
  ws_row :: "16 word"
  ws_col :: "16 word"
  ws_xpixel :: "16 word"
  ws_ypixel :: "16 word"

text \<open>\<^verbatim>\<open>struct termios\<close>: the four flag words and the control characters.\<close>

record termios =
  c_iflag :: "32 word"
  c_oflag :: "32 word"
  c_cflag :: "32 word"
  c_lflag :: "32 word"
  c_cc :: "8 word list"

text \<open>
  Arguments of a \<^verbatim>\<open>printf\<close>-style call, after the format string; \<open>PStrerror e\<close> is
  the string \<^verbatim>\<open>strerror(e)\<close>.
\<close>

datatype parg = PStr string | PChar char | PInt int | PStrerror int

text \<open>
  What a run does to the outside, in order. A constructor named after a call records
  that the call was issued, with its arguments; \<open>Write fd bs\<close> records that one
  \<^verbatim>\<open>write\<close> call transferred the bytes \<open>bs\<close> to \<open>fd\<close> (a failed \<^verbatim>\<open>write\<close> transfers
  nothing and leaves no entry).
\<close>

datatype action =
    Fprintf int string "parg list"
  | Fflush int
  | Get_pt
  | Unlockpt int
  | Grantpt int
  | Steal_pty int
  | Attach_child int string int
  | Check_ptrace_scope
  | Fork
  | Tcsetattr termios
  | Sigprocmask_block int
  | Sigaction int
  | Ioctl_swinsz int winsize
  | Write int string

text \<open>What the forked child does, in order (lines 279--294).\<close>

datatype child_step =
    Setenv string string int
  | Setpgid_to_parent
  | Setsid
  | Open_dup2 string string "int list"
  | Close int
  | Execvp string "string list"
  | Child_exit int

text \<open>
  Script entries. \<open>Wr_ok n\<close>: the descriptor takes up to \<open>n\<close> bytes, so \<^verbatim>\<open>write\<close>
  returns the smaller of \<open>n\<close> and the count it was given; \<open>Wr_err e\<close>: \<^verbatim>\<open>write\<close> returns
  \<open>-1\<close> with \<^verbatim>\<open>errno\<close> \<open>e\<close>. \<open>Rd_data bs\<close>: \<open>bs\<close> is waiting, \<^verbatim>\<open>read\<close> returns as much of
  it as the buffer holds (an empty \<open>bs\<close> is end of file); \<open>Rd_err e\<close>: \<^verbatim>\<open>read\<close> returns
  \<open>-1\<close>. \<open>Psel_ready a b\<close>: \<^verbatim>\<open>pselect\<close> returns a non-negative value and leaves
  descriptor 0 set iff \<open>a\<close> and the pty set iff \<open>b\<close>; \<open>Psel_err e\<close>: it returns \<open>-1\<close>.
\<close>

datatype wr = Wr_err int | Wr_ok nat
datatype rd = Rd_err int | Rd_data string
datatype psel = Psel_err int | Psel_ready bool bool

text \<open>
  One \<^verbatim>\<open>pselect\<close> call: whether SIGWINCH was delivered while the call had it
  unblocked (the handler then runs before the call returns), and the call's result.
\<close>

type_synonym wake = "bool \<times> psel"

record world =
  verbose :: int
  winch_happened :: int
  tcsetattr_q :: "int list"
  gwinsz_q :: "winsize option list"
  swinsz_q :: "int list"
  pselect_q :: "wake list"
  read_q :: "rd list"
  write_q :: "wr list"
  trace :: "action list"
  children :: "child_step list list"

text \<open>
  The scripts: \<open>tcsetattr_q\<close> answers the \<^verbatim>\<open>tcsetattr\<close> calls of the restore loop with
  an \<^verbatim>\<open>errno\<close> (0: the call succeeds); \<open>gwinsz_q\<close> answers \<^verbatim>\<open>ioctl(0, TIOCGWINSZ)\<close>
  (\<open>None\<close>: the call fails); \<open>swinsz_q\<close> holds the return values of
  \<^verbatim>\<open>ioctl(pty, TIOCSWINSZ)\<close>.
\<close>

record os_env =
  stack_termios :: termios
  stack_pty :: int
  get_pt_r :: int
  unlockpt_r :: int
  grantpt_r :: int
  ptsname_r :: "int \<Rightarrow> string"
  attach_child_r :: int
  steal_pty_r :: "int \<times> int"
  fork_r :: int
  execvp_fails :: bool
  tcgetattr_r :: "termios option"
  cfmakeraw_r :: "termios \<Rightarrow> termios"
  tcsetattr_raw_r :: int
  sigprocmask_r :: int
  reptyr_version :: string
  posixly_correct :: bool

text \<open>
  \<open>stack_termios\<close> and \<open>stack_pty\<close> are what the uninitialised locals \<^verbatim>\<open>saved_termios\<close>
  and \<^verbatim>\<open>pty\<close> of \<^verbatim>\<open>main\<close> happen to hold. \<open>get_pt_r\<close>, \<open>attach_child_r\<close> and
  \<open>steal_pty_r\<close> (error code, new descriptor) are the results of the platform layer,
  which is outside this file. \<open>tcgetattr_r = None\<close>: \<^verbatim>\<open>tcgetattr\<close> fails and leaves its
  argument alone. \<open>fork_r\<close> is what \<^verbatim>\<open>fork\<close> returns in the parent (positive: a child
  exists, never 0). \<open>cfmakeraw_r\<close> is the library's \<^verbatim>\<open>cfmakeraw\<close>. \<open>reptyr_version\<close> is
  the macro \<^verbatim>\<open>REPTYR_VERSION\<close> of \<^verbatim>\<open>reptyr.h\<close>. \<open>posixly_correct\<close> says whether
  the environment variable \<^verbatim>\<open>POSIXLY_CORRECT\<close> is set, which \<^verbatim>\<open>getopt\<close> looks at.
\<close>

definition emit :: "action list \<Rightarrow> world \<Rightarrow> world" where
  "emit as w = w\<lparr>trace := trace w @ as\<rparr>"

subsection \<open>Logging (lines 41--75)\<close>

definition x_debug :: "string option \<Rightarrow> string \<Rightarrow> parg list \<Rightarrow> action list" where
  "x_debug pfx msg ap =
     (case pfx of None \<Rightarrow> [] | Some p \<Rightarrow> [Fprintf 2 ''%s'' [PStr p]])
     @ [Fprintf 2 msg ap, Fprintf 2 ''\<newline>'' []]"

text \<open>A call either returns a value or ends the process with an exit status.\<close>

datatype 'a outcome = Exit int world | Ret 'a world

definition die :: "string \<Rightarrow> parg list \<Rightarrow> world \<Rightarrow> 'a outcome" where
  "die msg ap w = Exit 1 (emit (x_debug (Some ''[!] '') msg ap) w)"

definition debug :: "string \<Rightarrow> parg list \<Rightarrow> world \<Rightarrow> world" where
  "debug msg ap w = (if verbose w = 0 then w else emit (x_debug (Some ''[+] '') msg ap) w)"


subsection \<open>\<^verbatim>\<open>writeall\<close> (lines 102--115)\<close>

text \<open>One \<^verbatim>\<open>write(fd, buf, count)\<close>: the return value, \<^verbatim>\<open>errno\<close>, and the world after.\<close>

definition sys_write :: "int \<Rightarrow> string \<Rightarrow> int \<Rightarrow> world \<Rightarrow> (int \<times> int \<times> world) option" where
  "sys_write fd buf count w =
     (case write_q w of
        [] \<Rightarrow> None
      | r # q \<Rightarrow>
          (case r of
             Wr_err e \<Rightarrow> Some (- 1, e, w\<lparr>write_q := q\<rparr>)
           | Wr_ok n \<Rightarrow>
               (let rv = min (int n) count
                in Some (rv, 0, emit [Write fd (take (nat rv) buf)] (w\<lparr>write_q := q\<rparr>)))))"

lemma sys_write_shorter:
  "sys_write fd buf count w = Some (rv, en, w') \<Longrightarrow> length (write_q w') < length (write_q w)"
  by (auto simp: sys_write_def emit_def Let_def split: list.splits wr.splits)

text \<open>
  \<open>buf\<close> is the bytes from the pointer on, so \<^verbatim>\<open>buf += rv\<close> is \<open>drop\<close>. The function
  returns \<^verbatim>\<open>int\<close>; its \<^verbatim>\<open>return rv\<close> narrows the \<^verbatim>\<open>ssize_t\<close> value \<open>-1\<close>, which stays \<open>-1\<close>.
\<close>

function writeall :: "int \<Rightarrow> string \<Rightarrow> int \<Rightarrow> world \<Rightarrow> (int \<times> world) option" where
  "writeall fd buf count w =
     (if count > 0 then
        (case sys_write fd buf count w of
           None \<Rightarrow> None
         | Some (rv, en, w') \<Rightarrow>
             if rv < 0 then
               (if en = EINTR then writeall fd buf count w' else Some (rv, w'))
             else writeall fd (drop (nat rv) buf) (count - rv) w')
      else Some (0, w))"
  by pat_completeness auto
termination
  by (relation "measure (\<lambda>(fd, buf, count, w). length (write_q w))")
     (auto dest: sys_write_shorter)

declare writeall.simps [simp del]

lemma writeall_pselect_q:
  "writeall fd buf count w = Some (rv, w') \<Longrightarrow> pselect_q w' = pselect_q w"
proof (induction fd buf count w arbitrary: rv w' rule: writeall.induct)
  case (1 fd buf count w)
  from "1.prems" show ?case
    apply (subst (asm) writeall.simps)
    apply (auto split: if_splits option.splits dest!: "1.IH"[rotated -1]
                simp: sys_write_def emit_def Let_def split: list.splits wr.splits)
    done
qed

subsection \<open>\<^verbatim>\<open>setup_raw\<close> (lines 77--87)\<close>

text \<open>
  \<open>save\<close> is what \<^verbatim>\<open>*save\<close> holds at the call; the value returned is what it holds
  afterwards.
\<close>

definition setup_raw :: "os_env \<Rightarrow> termios \<Rightarrow> world \<Rightarrow> termios outcome" where
  "setup_raw E save w =
     (case tcgetattr_r E of
        None \<Rightarrow> Ret save (emit [Fprintf 2 ''Unable to read terminal attributes: %m'' []] w)
      | Some cur \<Rightarrow>
          (let set = cfmakeraw_r E cur;
               w1 = emit [Tcsetattr set] w
           in if tcsetattr_raw_r E < 0
              then die ''Unable to set terminal attributes: %m'' [] w1
              else Ret cur w1))"

subsection \<open>\<^verbatim>\<open>resize_pty\<close> (lines 89--100)\<close>

definition ioctl_gwinsz :: "world \<Rightarrow> (winsize option \<times> world) option" where
  "ioctl_gwinsz w =
     (case gwinsz_q w of [] \<Rightarrow> None | g # q \<Rightarrow> Some (g, w\<lparr>gwinsz_q := q\<rparr>))"

definition ioctl_swinsz :: "int \<Rightarrow> winsize \<Rightarrow> world \<Rightarrow> (int \<times> world) option" where
  "ioctl_swinsz fd sz w =
     (case swinsz_q w of
        [] \<Rightarrow> None
      | rv # q \<Rightarrow> Some (rv, emit [Ioctl_swinsz fd sz] (w\<lparr>swinsz_q := q\<rparr>)))"

definition resize_pty :: "int \<Rightarrow> world \<Rightarrow> world option" where
  "resize_pty pty w =
     (case ioctl_gwinsz w of
        None \<Rightarrow> None
      | Some (None, w1) \<Rightarrow>
          (let defaultsize = \<lparr>ws_row = 30, ws_col = 80, ws_xpixel = 640, ws_ypixel = 480\<rparr>
           in case ioctl_swinsz pty defaultsize w1 of
                None \<Rightarrow> None
              | Some (rv, w2) \<Rightarrow>
                  Some (if rv < 0
                        then emit [Fprintf 2 ''Cannot set terminal size\<newline>'' []] w2
                        else w2))
      | Some (Some sz, w1) \<Rightarrow>
          (case ioctl_swinsz pty sz w1 of
             None \<Rightarrow> None
           | Some (rv, w2) \<Rightarrow> Some w2))"

lemma resize_pty_pselect_q:
  "resize_pty pty w = Some w' \<Longrightarrow> pselect_q w' = pselect_q w"
  by (auto simp: resize_pty_def ioctl_gwinsz_def ioctl_swinsz_def emit_def Let_def
           split: list.splits option.splits if_splits)

subsection \<open>The resize flag and its handler (lines 117--121)\<close>

definition do_winch :: "int \<Rightarrow> world \<Rightarrow> world" where
  "do_winch signal w = w\<lparr>winch_happened := 1\<rparr>"

subsection \<open>\<^verbatim>\<open>do_proxy\<close> (lines 123--173)\<close>

text \<open>
  SIGWINCH is blocked outside \<^verbatim>\<open>pselect\<close> and unblocked inside it (the empty
  \<^verbatim>\<open>select_mask\<close>), so the handler runs only during a \<^verbatim>\<open>pselect\<close> call.
\<close>

definition sys_pselect :: "world \<Rightarrow> (psel \<times> world) option" where
  "sys_pselect w =
     (case pselect_q w of
        [] \<Rightarrow> None
      | (sig, r) # q \<Rightarrow>
          (let w1 = w\<lparr>pselect_q := q\<rparr>
           in Some (r, if sig then do_winch SIGWINCH w1 else w1)))"

text \<open>One \<^verbatim>\<open>read(fd, buf, n)\<close>: the return value, the bytes now in \<open>buf\<close>, the world after.\<close>

definition sys_read :: "int \<Rightarrow> nat \<Rightarrow> world \<Rightarrow> (int \<times> string \<times> world) option" where
  "sys_read fd n w =
     (case read_q w of
        [] \<Rightarrow> None
      | r # q \<Rightarrow>
          (case r of
             Rd_err e \<Rightarrow> Some (- 1, [], w\<lparr>read_q := q\<rparr>)
           | Rd_data bs \<Rightarrow> Some (int (length (take n bs)), take n bs, w\<lparr>read_q := q\<rparr>)))"

text \<open>
  \<^verbatim>\<open>do_proxy\<close> returns nothing; the model also says which \<^verbatim>\<open>return\<close> statement ended
  it, with the \<^verbatim>\<open>errno\<close> or the \<^verbatim>\<open>count\<close> tested there.
\<close>

datatype proxy_exit =
    Sigprocmask_failed
  | Wait_error int
  | Local_read int
  | Target_read int

datatype proxy_step = Stop proxy_exit world | Go world

text \<open>Lines 161--164, the body of \<^verbatim>\<open>if (FD_ISSET(0, &set))\<close>.\<close>

definition proxy_local :: "int \<Rightarrow> world \<Rightarrow> proxy_step option" where
  "proxy_local pty w =
     (case sys_read 0 4096 w of
        None \<Rightarrow> None
      | Some (count, buf, w1) \<Rightarrow>
          if count < 0 then Some (Stop (Local_read count) w1)
          else (case writeall pty buf count w1 of
                  None \<Rightarrow> None
                | Some (rv, w2) \<Rightarrow> Some (Go w2)))"

text \<open>Lines 167--170, the body of \<^verbatim>\<open>if (FD_ISSET(pty, &set))\<close>.\<close>

definition proxy_target :: "int \<Rightarrow> world \<Rightarrow> proxy_step option" where
  "proxy_target pty w =
     (case sys_read pty 4096 w of
        None \<Rightarrow> None
      | Some (count, buf, w1) \<Rightarrow>
          if count \<le> 0 then Some (Stop (Target_read count) w1)
          else (case writeall 1 buf count w1 of
                  None \<Rightarrow> None
                | Some (rv, w2) \<Rightarrow> Some (Go w2)))"

lemma proxy_local_pselect_q:
  "proxy_local pty w = Some (Go w') \<Longrightarrow> pselect_q w' = pselect_q w"
  by (auto simp: proxy_local_def sys_read_def
           split: list.splits option.splits if_splits rd.splits
           dest!: writeall_pselect_q)

lemma proxy_target_pselect_q:
  "proxy_target pty w = Some (Go w') \<Longrightarrow> pselect_q w' = pselect_q w"
  by (auto simp: proxy_target_def sys_read_def
           split: list.splits option.splits if_splits rd.splits
           dest!: writeall_pselect_q)

lemma sys_pselect_shorter:
  "sys_pselect w = Some (r, w') \<Longrightarrow> length (pselect_q w') < length (pselect_q w)"
  by (auto simp: sys_pselect_def do_winch_def Let_def split: list.splits if_splits)

text \<open>The \<^verbatim>\<open>while (1)\<close> of lines 145--172.\<close>

function proxy_loop :: "int \<Rightarrow> world \<Rightarrow> (proxy_exit \<times> world) option" where
  "proxy_loop pty w =
     (case (if winch_happened w \<noteq> 0
            then resize_pty pty (w\<lparr>winch_happened := 0\<rparr>)
            else Some w) of
        None \<Rightarrow> None
      | Some w1 \<Rightarrow>
          (case sys_pselect w1 of
             None \<Rightarrow> None
           | Some (Psel_err e, w2) \<Rightarrow>
               if e = EINTR then proxy_loop pty w2
               else Some (Wait_error e, emit [Fprintf 2 ''select: %m'' []] w2)
           | Some (Psel_ready isset0 issetp, w2) \<Rightarrow>
               (case (if isset0 then proxy_local pty w2 else Some (Go w2)) of
                  None \<Rightarrow> None
                | Some (Stop c w3) \<Rightarrow> Some (c, w3)
                | Some (Go w3) \<Rightarrow>
                    (case (if issetp then proxy_target pty w3 else Some (Go w3)) of
                       None \<Rightarrow> None
                     | Some (Stop c w4) \<Rightarrow> Some (c, w4)
                     | Some (Go w4) \<Rightarrow> proxy_loop pty w4))))"
  by pat_completeness auto
termination
proof (relation "measure (\<lambda>(pty, w). length (pselect_q w))", goal_cases)
  case 1
  show ?case by simp
next
  case (2 pty w w1 x r w2 e)
  then have "pselect_q w1 = pselect_q w"
    by (auto split: if_splits dest: resize_pty_pselect_q)
  with 2 show ?case by (auto dest: sys_pselect_shorter)
next
  case (3 pty w w1 x r w2 a b s3 w3 s4 w4)
  then have "pselect_q w1 = pselect_q w"
    by (auto split: if_splits dest: resize_pty_pselect_q)
  moreover from 3 have "pselect_q w3 = pselect_q w2"
    by (auto split: if_splits dest: proxy_local_pselect_q)
  moreover from 3 have "pselect_q w4 = pselect_q w3"
    by (auto split: if_splits dest: proxy_target_pselect_q)
  ultimately show ?case using 3 by (auto dest: sys_pselect_shorter)
qed

declare proxy_loop.simps [simp del]

definition do_proxy :: "os_env \<Rightarrow> int \<Rightarrow> world \<Rightarrow> (proxy_exit \<times> world) option" where
  "do_proxy E pty w =
     (let w1 = emit [Sigprocmask_block SIGWINCH] w
      in if sigprocmask_r E = - 1
         then Some (Sigprocmask_failed, emit [Fprintf 2 ''sigprocmask: %m'' []] w1)
         else (case resize_pty pty (emit [Sigaction SIGWINCH] w1) of
                 None \<Rightarrow> None
               | Some w2 \<Rightarrow> proxy_loop pty w2))"

subsection \<open>\<^verbatim>\<open>usage\<close> (lines 175--189)\<close>

definition usage :: "string \<Rightarrow> action list" where
  "usage me =
     [Fprintf 2 ''Usage: %s [-s] PID\<newline>'' [PStr me],
      Fprintf 2 ''       %s -l|-L [COMMAND [ARGS]]\<newline>'' [PStr me],
      Fprintf 2 ''  -l    Create a new pty pair and print the name of the slave.\<newline>'' [],
      Fprintf 2 ''           if there are command-line arguments after -l\<newline>'' [],
      Fprintf 2 ''           they are executed with REPTYR_PTY set to path of pty.\<newline>'' [],
      Fprintf 2 (''  -L    Like '' @ [CHR 0x27] @ ''-l'' @ [CHR 0x27]
                 @ '', but also redirect the child'' @ [CHR 0x27]
                 @ ''s stdio to the slave.\<newline>'') [],
      Fprintf 2 ''  -s    Attach fds 0-2 on the target, even if it is not attached to a tty.\<newline>'' [],
      Fprintf 2 ''  -T    Steal the entire terminal session of the target.\<newline>'' [],
      Fprintf 2 ''           [experimental] May be more reliable, and will attach all\<newline>'' [],
      Fprintf 2 ''           processes running on the terminal.\<newline>'' [],
      Fprintf 2 ''  -h    Print this help message and exit.\<newline>'' [],
      Fprintf 2 ''  -v    Print the version number and exit.\<newline>'' [],
      Fprintf 2 ''  -V    Print verbose debug output.\<newline>'' []]"

subsection \<open>The library's \<^verbatim>\<open>getopt\<close> and \<^verbatim>\<open>strtol\<close>\<close>

text \<open>
  \<^verbatim>\<open>getopt\<close> as the GNU C library implements it, for an option string of letters
  that take no argument and do not start with \<open>+\<close> or \<open>-\<close>. Its state is \<^verbatim>\<open>optind\<close>,
  the option characters left in the argument it has open (\<open>g_nextchar\<close>, empty when
  none is open), and the bounds of the operands it has passed over so far. Unless
  \<^verbatim>\<open>POSIXLY_CORRECT\<close> is set it passes over operands and reorders \<^verbatim>\<open>argv\<close>, so that
  the options come first and, when it is done, \<^verbatim>\<open>optind\<close> is the index of the first
  operand; with \<^verbatim>\<open>POSIXLY_CORRECT\<close> set it stops at the first operand, as POSIX
  describes and other C libraries do. The argument \<^verbatim>\<open>--\<close> ends the options either way.
  It returns the option character, \<open>?\<close> for a character outside the option string
  (after a diagnostic on the error stream), or nothing (the \<open>-1\<close> of the C function).
\<close>

record getopt_data =
  g_optind :: nat
  g_nextchar :: string
  g_first_nonopt :: nat
  g_last_nonopt :: nat

text \<open>The library's \<^verbatim>\<open>NONOPTION_P\<close>: not starting with \<open>-\<close>, or \<open>-\<close> alone.\<close>

definition nonoption_p :: "string \<Rightarrow> bool" where
  "nonoption_p a = (a = [] \<or> hd a \<noteq> CHR ''-'' \<or> tl a = [])"

text \<open>
  The library's \<^verbatim>\<open>exchange\<close>: the operands at \<open>[first_nonopt, last_nonopt)\<close> trade
  places with the options at \<open>[last_nonopt, optind)\<close> behind them. The library keeps
  \<open>first_nonopt \<le> last_nonopt \<le> optind \<le> argc\<close>; outside that the C code is undefined
  and the model leaves \<^verbatim>\<open>argv\<close> alone.
\<close>

definition exchange :: "string list \<Rightarrow> getopt_data \<Rightarrow> string list \<times> getopt_data" where
  "exchange argv d =
     (let f = g_first_nonopt d; l = g_last_nonopt d; i = g_optind d
      in if f \<le> l \<and> l \<le> i \<and> i \<le> length argv
         then (take f argv @ take (i - l) (drop l argv) @ take (l - f) (drop f argv)
                 @ drop i argv,
               d\<lparr>g_first_nonopt := f + (i - l), g_last_nonopt := i\<rparr>)
         else (argv, d\<lparr>g_first_nonopt := f + (i - l), g_last_nonopt := i\<rparr>))"

text \<open>The block for the default ordering: move the options passed since the last
  operands in front of those operands, then pass over the operands that follow.\<close>

definition getopt_permute :: "string list \<Rightarrow> getopt_data \<Rightarrow> string list \<times> getopt_data" where
  "getopt_permute argv d =
     (let (a, e) =
            (if g_first_nonopt d \<noteq> g_last_nonopt d \<and> g_last_nonopt d \<noteq> g_optind d
             then exchange argv d
             else if g_last_nonopt d \<noteq> g_optind d
             then (argv, d\<lparr>g_first_nonopt := g_optind d\<rparr>)
             else (argv, d));
          i = g_optind e + length (takeWhile nonoption_p (drop (g_optind e) a))
      in (a, e\<lparr>g_optind := i, g_last_nonopt := i\<rparr>))"

definition getopt_dashdash :: "string list \<Rightarrow> getopt_data \<Rightarrow> string list \<times> getopt_data" where
  "getopt_dashdash argv d =
     (if g_optind d < length argv \<and> argv ! g_optind d = ''--''
      then
        (let e0 = d\<lparr>g_optind := g_optind d + 1\<rparr>;
             (a, e) =
               (if g_first_nonopt e0 \<noteq> g_last_nonopt e0 \<and> g_last_nonopt e0 \<noteq> g_optind e0
                then exchange argv e0
                else if g_first_nonopt e0 = g_last_nonopt e0
                then (argv, e0\<lparr>g_first_nonopt := g_optind e0\<rparr>)
                else (argv, e0))
         in (a, e\<lparr>g_last_nonopt := length argv, g_optind := length argv\<rparr>))
      else (argv, d))"

text \<open>
  Opening the next argument. The result says whether the scan is over (the \<open>-1\<close>
  return). As \<^verbatim>\<open>optind\<close> never exceeds \<^verbatim>\<open>argc\<close>, the library's tests \<^verbatim>\<open>optind != argc\<close>
  and \<^verbatim>\<open>optind == argc\<close> are written \<open><\<close> and \<open>\<ge>\<close>.
\<close>

definition getopt_next :: "os_env \<Rightarrow> string list \<Rightarrow> getopt_data
    \<Rightarrow> bool \<times> string list \<times> getopt_data" where
  "getopt_next E argv d =
     (let d1 = d\<lparr>g_last_nonopt := min (g_last_nonopt d) (g_optind d),
                 g_first_nonopt := min (g_first_nonopt d) (g_optind d)\<rparr>;
          (argv2, d2) = (if posixly_correct E then (argv, d1) else getopt_permute argv d1);
          (argv3, d3) = getopt_dashdash argv2 d2
      in if g_optind d3 \<ge> length argv
         then (True, argv3,
               if g_first_nonopt d3 \<noteq> g_last_nonopt d3
               then d3\<lparr>g_optind := g_first_nonopt d3\<rparr> else d3)
         else if nonoption_p (argv3 ! g_optind d3) then (True, argv3, d3)
         else (False, argv3, d3\<lparr>g_nextchar := tl (argv3 ! g_optind d3)\<rparr>))"

definition getopt :: "os_env \<Rightarrow> string list \<Rightarrow> string \<Rightarrow> getopt_data \<Rightarrow> world
    \<Rightarrow> char option \<times> string list \<times> getopt_data \<times> world" where
  "getopt E argv optstring d w =
     (if argv = [] then (None, argv, d, w)
      else
        (let (fin, argv', d') =
               (if g_nextchar d = [] then getopt_next E argv d else (False, argv, d))
         in if fin then (None, argv', d', w)
            else
              (let c = hd (g_nextchar d');
                   rest = tl (g_nextchar d');
                   d'' = d'\<lparr>g_nextchar := rest,
                            g_optind := (if rest = [] then g_optind d' + 1 else g_optind d')\<rparr>
               in if c \<notin> set optstring \<or> c = CHR '':'' \<or> c = CHR '';''
                  then (Some CHR ''?'', argv', d'',
                        emit [Fprintf 2 (''%s: invalid option -- '' @ [CHR 0x27] @ ''%c''
                                         @ [CHR 0x27] @ ''\<newline>'')
                                [PStr (hd argv'), PChar c]] w)
                  else (Some c, argv', d'', w))))"

text \<open>The state before the first call: \<^verbatim>\<open>optind\<close> is 1.\<close>

definition getopt_init :: getopt_data where
  "getopt_init = \<lparr>g_optind = 1, g_nextchar = [], g_first_nonopt = 1, g_last_nonopt = 1\<rparr>"

text \<open>What is left to scan: it gets smaller with every option returned.\<close>

definition getopt_left :: "string list \<Rightarrow> getopt_data \<Rightarrow> nat" where
  "getopt_left argv d =
     (if g_nextchar d = [] then (\<Sum>a\<leftarrow>drop (g_optind d) argv. Suc (length a))
      else length (g_nextchar d) + (\<Sum>a\<leftarrow>drop (Suc (g_optind d)) argv. Suc (length a)))"

lemma exchange_keeps:
  assumes "exchange argv d = (a, e)"
  shows "length a = length argv \<and> drop (g_optind d) a = drop (g_optind d) argv
       \<and> g_optind e = g_optind d \<and> g_nextchar e = g_nextchar d"
proof (cases "g_first_nonopt d \<le> g_last_nonopt d \<and> g_last_nonopt d \<le> g_optind d
              \<and> g_optind d \<le> length argv")
  case False
  with assms show ?thesis by (auto simp: exchange_def Let_def)
next
  case True
  define f l i where "f = g_first_nonopt d" and "l = g_last_nonopt d" and "i = g_optind d"
  have ord: "f \<le> l" "l \<le> i" "i \<le> length argv" using True by (simp_all add: f_def l_def i_def)
  define p where "p = take f argv @ take (i - l) (drop l argv) @ take (l - f) (drop f argv)"
  have a: "a = p @ drop i argv" and e: "e = d\<lparr>g_first_nonopt := f + (i - l), g_last_nonopt := i\<rparr>"
    using assms True by (simp_all add: exchange_def Let_def f_def l_def i_def p_def)
  have lp: "length p = i" using ord by (simp add: p_def)
  have "drop i a = drop i argv" unfolding a using lp by (metis append_eq_conv_conj)
  moreover have "length a = length argv" unfolding a using lp ord by simp
  ultimately show ?thesis using e by (simp add: i_def)
qed

lemma getopt_permute_keeps:
  assumes "getopt_permute argv d = (a, e)"
  shows "length a = length argv \<and> g_optind d \<le> g_optind e
       \<and> drop (g_optind e) a = drop (g_optind e) argv \<and> g_nextchar e = g_nextchar d"
proof -
  obtain a0 e0 where x: "(if g_first_nonopt d \<noteq> g_last_nonopt d \<and> g_last_nonopt d \<noteq> g_optind d
             then exchange argv d
             else if g_last_nonopt d \<noteq> g_optind d
             then (argv, d\<lparr>g_first_nonopt := g_optind d\<rparr>)
             else (argv, d)) = (a0, e0)"
    by (metis surj_pair)
  have k: "length a0 = length argv" "drop (g_optind d) a0 = drop (g_optind d) argv"
       "g_optind e0 = g_optind d" "g_nextchar e0 = g_nextchar d"
    using x by (auto split: if_splits dest: exchange_keeps)
  define n where "n = length (takeWhile nonoption_p (drop (g_optind e0) a0))"
  have ae: "a = a0" "e = e0\<lparr>g_optind := g_optind e0 + n, g_last_nonopt := g_optind e0 + n\<rparr>"
    using assms unfolding getopt_permute_def Let_def x n_def by auto
  have "drop (n + g_optind d) a0 = drop n (drop (g_optind d) a0)" by (simp only: drop_drop)
  also have "\<dots> = drop n (drop (g_optind d) argv)" using k(2) by simp
  also have "\<dots> = drop (n + g_optind d) argv" by (simp only: drop_drop)
  finally have "drop (g_optind d + n) a0 = drop (g_optind d + n) argv"
    by (simp add: add.commute)
  then show ?thesis using ae k by simp
qed

lemma getopt_dashdash_keeps:
  assumes "getopt_dashdash argv d = (a, e)"
  shows "length a = length argv \<and> g_nextchar e = g_nextchar d
       \<and> (a = argv \<and> e = d \<or> g_optind e = length argv)"
proof (cases "g_optind d < length argv \<and> argv ! g_optind d = ''--''")
  case False
  with assms show ?thesis by (auto simp: getopt_dashdash_def)
next
  case True
  let ?e0 = "d\<lparr>g_optind := g_optind d + 1\<rparr>"
  obtain a1 e1 where x: "(if g_first_nonopt ?e0 \<noteq> g_last_nonopt ?e0 \<and> g_last_nonopt ?e0 \<noteq> g_optind ?e0
                then exchange argv ?e0
                else if g_first_nonopt ?e0 = g_last_nonopt ?e0
                then (argv, ?e0\<lparr>g_first_nonopt := g_optind ?e0\<rparr>)
                else (argv, ?e0)) = (a1, e1)"
    by (metis surj_pair)
  have k: "length a1 = length argv \<and> g_nextchar e1 = g_nextchar d"
    using x by (auto split: if_splits dest: exchange_keeps)
  have "getopt_dashdash argv d = (a1, e1\<lparr>g_last_nonopt := length argv, g_optind := length argv\<rparr>)"
    unfolding getopt_dashdash_def Let_def x using True by simp
  with assms have "a = a1" "e = e1\<lparr>g_last_nonopt := length argv, g_optind := length argv\<rparr>"
    by simp_all
  with k show ?thesis by simp
qed

lemma getopt_next_unfold:
  assumes "(if posixly_correct E then (argv, d1) else getopt_permute argv d1) = (a2, d2)"
    and "getopt_dashdash a2 d2 = (a3, d3)"
    and "d1 = d\<lparr>g_last_nonopt := min (g_last_nonopt d) (g_optind d),
                 g_first_nonopt := min (g_first_nonopt d) (g_optind d)\<rparr>"
  shows "getopt_next E argv d =
      (if g_optind d3 \<ge> length argv
         then (True, a3,
               if g_first_nonopt d3 \<noteq> g_last_nonopt d3
               then d3\<lparr>g_optind := g_first_nonopt d3\<rparr> else d3)
         else if nonoption_p (a3 ! g_optind d3) then (True, a3, d3)
         else (False, a3, d3\<lparr>g_nextchar := tl (a3 ! g_optind d3)\<rparr>))"
proof (cases "posixly_correct E")
  case True
  with assms(1) have "a2 = argv" "d2 = d1" by simp_all
  with assms(2,3) True show ?thesis by (simp add: getopt_next_def Let_def)
next
  case False
  with assms(1) have "getopt_permute argv d1 = (a2, d2)" by simp
  with assms(2,3) False show ?thesis by (simp add: getopt_next_def Let_def)
qed

lemma getopt_next_open:
  assumes "getopt_next E argv d = (False, a, e)"
  shows "length a = length argv \<and> g_optind d \<le> g_optind e \<and> g_optind e < length argv
       \<and> drop (g_optind e) a = drop (g_optind e) argv
       \<and> g_nextchar e = tl (argv ! g_optind e) \<and> \<not> nonoption_p (argv ! g_optind e)"
proof -
  define d1 where "d1 = d\<lparr>g_last_nonopt := min (g_last_nonopt d) (g_optind d),
                 g_first_nonopt := min (g_first_nonopt d) (g_optind d)\<rparr>"
  obtain a2 d2 where p: "(if posixly_correct E then (argv, d1) else getopt_permute argv d1) = (a2, d2)"
    by (metis surj_pair)
  obtain a3 d3 where q: "getopt_dashdash a2 d2 = (a3, d3)" by (metis surj_pair)
  have k2: "length a2 = length argv \<and> g_optind d \<le> g_optind d2
       \<and> drop (g_optind d2) a2 = drop (g_optind d2) argv"
    using p by (auto split: if_splits dest: getopt_permute_keeps simp: d1_def)
  from getopt_dashdash_keeps[OF q] have k3: "length a3 = length a2"
    "a3 = a2 \<and> d3 = d2 \<or> g_optind d3 = length a2" by simp_all
  have r: "(False, a, e) =
      (if g_optind d3 \<ge> length argv
         then (True, a3,
               if g_first_nonopt d3 \<noteq> g_last_nonopt d3
               then d3\<lparr>g_optind := g_first_nonopt d3\<rparr> else d3)
         else if nonoption_p (a3 ! g_optind d3) then (True, a3, d3)
         else (False, a3, d3\<lparr>g_nextchar := tl (a3 ! g_optind d3)\<rparr>))"
    using assms getopt_next_unfold[OF p q d1_def] by simp
  then have lt: "g_optind d3 < length argv" and no: "\<not> nonoption_p (a3 ! g_optind d3)"
    and ae: "a = a3" "e = d3\<lparr>g_nextchar := tl (a3 ! g_optind d3)\<rparr>"
    by (auto split: if_splits)
  from k3 lt k2 have same: "a3 = a2" "d3 = d2" by auto
  have "drop (g_optind d2) a2 = argv ! g_optind d2 # drop (Suc (g_optind d2)) argv"
    using lt same k2 by (simp add: Cons_nth_drop_Suc)
  then have nth: "a2 ! g_optind d2 = argv ! g_optind d2" by (rule nth_via_drop)
  show ?thesis using ae same k2 lt no nth by simp
qed

lemma sum_drop_Suc:
  "i < length xs \<Longrightarrow>
   (\<Sum>a\<leftarrow>drop i xs. Suc (length a)) = Suc (length (xs ! i)) + (\<Sum>a\<leftarrow>drop (Suc i) xs. Suc (length a))"
  by (simp add: Cons_nth_drop_Suc[symmetric])

lemma sum_drop_mono:
  "i \<le> j \<Longrightarrow> (\<Sum>a\<leftarrow>drop j xs. Suc (length (a::string))) \<le> (\<Sum>a\<leftarrow>drop i xs. Suc (length a))"
proof -
  assume "i \<le> j"
  then have "drop i xs = take (j - i) (drop i xs) @ drop j xs"
    by (metis append_take_drop_id drop_drop le_add_diff_inverse2)
  then have "(\<Sum>a\<leftarrow>drop i xs. Suc (length a))
      = (\<Sum>a\<leftarrow>take (j - i) (drop i xs). Suc (length a)) + (\<Sum>a\<leftarrow>drop j xs. Suc (length a))"
    by (metis map_append sum_list.append)
  then show ?thesis by simp
qed

lemma getopt_decreases:
  assumes "getopt E argv optstring d w = (Some c, argv', d', w')"
  shows "getopt_left argv' d' < getopt_left argv d"
proof -
  from assms have ne: "argv \<noteq> []" by (auto simp: getopt_def)
  obtain fin a e where x:
    "(if g_nextchar d = [] then getopt_next E argv d else (False, argv, d)) = (fin, a, e)"
    by (metis prod_cases3)
  from assms ne x have nf: "\<not> fin" by (auto simp: getopt_def Let_def split: if_splits)
  define rest where "rest = tl (g_nextchar e)"
  have r: "argv' = a"
    "d' = e\<lparr>g_nextchar := rest, g_optind := (if rest = [] then g_optind e + 1 else g_optind e)\<rparr>"
    using assms ne x nf by (auto simp: getopt_def Let_def rest_def split: if_splits)
  show ?thesis
  proof (cases "g_nextchar d = []")
    case False
    with x have ae: "a = argv" "e = d" by simp_all
    from False obtain c0 cs where nc: "g_nextchar d = c0 # cs" by (cases "g_nextchar d") auto
    show ?thesis using r ae nc False by (auto simp: getopt_left_def rest_def)
  next
    case True
    with x nf have "getopt_next E argv d = (False, a, e)" by simp
    from getopt_next_open[OF this] have k: "g_optind d \<le> g_optind e" "g_optind e < length argv"
      "drop (g_optind e) a = drop (g_optind e) argv" "g_nextchar e = tl (argv ! g_optind e)"
      "\<not> nonoption_p (argv ! g_optind e)" "length a = length argv" by simp_all
    define opt where "opt = argv ! g_optind e"
    from k(5) obtain c1 c2 cs where o: "opt = c1 # c2 # cs"
      by (cases opt; cases "tl opt") (auto simp: nonoption_p_def opt_def)
    have nce: "g_nextchar e = c2 # cs" "rest = cs"
      using k(4) o by (simp_all add: opt_def rest_def)
    have da: "drop (Suc (g_optind e)) a = drop (Suc (g_optind e)) argv"
      using k(3) by (metis drop_Suc tl_drop)
    have start: "getopt_left argv d = (\<Sum>a\<leftarrow>drop (g_optind d) argv. Suc (length a))"
      using True by (simp add: getopt_left_def)
    have big: "Suc (length opt) + (\<Sum>a\<leftarrow>drop (Suc (g_optind e)) argv. Suc (length a))
        \<le> getopt_left argv d"
      unfolding start using sum_drop_mono[OF k(1), of argv] sum_drop_Suc[OF k(2)]
      by (simp add: opt_def)
    have "getopt_left argv' d' \<le> length cs + (\<Sum>a\<leftarrow>drop (Suc (g_optind e)) argv. Suc (length a))"
      using r nce da by (auto simp: getopt_left_def)
    with big o show ?thesis by simp
  qed
qed

text \<open>C-locale \<^verbatim>\<open>isspace\<close> and \<^verbatim>\<open>isdigit\<close>.\<close>

definition isspace :: "char \<Rightarrow> bool" where
  "isspace c = (of_char c \<in> {32, 9, 10, 11, 12, 13 :: nat})"

definition isdigit :: "char \<Rightarrow> bool" where
  "isdigit c = (48 \<le> (of_char c :: nat) \<and> (of_char c :: nat) \<le> 57)"

definition digits_value :: "string \<Rightarrow> int" where
  "digits_value ds = foldl (\<lambda>acc c. 10 * acc + (int (of_char c) - 48)) 0 ds"

text \<open>
  \<^verbatim>\<open>strtol(nptr, &endptr, 10)\<close> as the C standard describes it: white space, an
  optional sign, then decimal digits. It gives the value, the text \<^verbatim>\<open>endptr\<close> points
  at, and \<^verbatim>\<open>errno\<close> (which the caller has set to 0). With no digits nothing is
  converted and \<^verbatim>\<open>endptr\<close> is \<^verbatim>\<open>nptr\<close>; a value outside \<^verbatim>\<open>long\<close> is clamped with
  \<^verbatim>\<open>ERANGE\<close>.
\<close>

definition strtol10 :: "string \<Rightarrow> int \<times> string \<times> int" where
  "strtol10 nptr =
     (let s1 = dropWhile isspace nptr;
          neg = (s1 \<noteq> [] \<and> hd s1 = CHR ''-'');
          s2 = (if s1 \<noteq> [] \<and> (hd s1 = CHR ''-'' \<or> hd s1 = CHR ''+'') then tl s1 else s1);
          ds = takeWhile isdigit s2;
          v = (if neg then - digits_value ds else digits_value ds)
      in if ds = [] then (0, nptr, 0)
         else if v > LONG_MAX then (LONG_MAX, dropWhile isdigit s2, ERANGE)
         else if v < LONG_MIN then (LONG_MIN, dropWhile isdigit s2, ERANGE)
         else (v, dropWhile isdigit s2, 0))"

subsection \<open>\<^verbatim>\<open>main\<close> (lines 191--308)\<close>

text \<open>The flags of lines 196--199.\<close>

record options =
  do_attach :: int
  force_stdio :: int
  do_steal :: int
  unattached_script_redirection :: int

text \<open>
  The option loop, lines 201--232. It returns the flags, \<^verbatim>\<open>optind\<close> and \<^verbatim>\<open>argv\<close> as
  \<^verbatim>\<open>getopt\<close> has left it, or ends the process (\<^verbatim>\<open>-h\<close>, \<^verbatim>\<open>-v\<close>, an unknown option).
  \<^verbatim>\<open>-l\<close> and \<^verbatim>\<open>-L\<close> leave the loop at once.
\<close>

function parse_options ::
  "os_env \<Rightarrow> string list \<Rightarrow> options \<Rightarrow> getopt_data \<Rightarrow> world
     \<Rightarrow> (options \<times> nat \<times> string list) outcome" where
  "parse_options E argv opts d w =
     (case getopt E argv ''hlLsTvV'' d w of
        (None, argv', d', w') \<Rightarrow> Ret (opts, g_optind d', argv') w'
      | (Some opt, argv', d', w') \<Rightarrow>
          if opt = CHR ''h'' then Exit 0 (emit (usage (hd argv')) w')
          else if opt = CHR ''l'' then Ret (opts\<lparr>do_attach := 0\<rparr>, g_optind d', argv') w'
          else if opt = CHR ''L'' then
            Ret (opts\<lparr>do_attach := 0, unattached_script_redirection := 1\<rparr>, g_optind d', argv') w'
          else if opt = CHR ''s'' then parse_options E argv' (opts\<lparr>force_stdio := 1\<rparr>) d' w'
          else if opt = CHR ''T'' then parse_options E argv' (opts\<lparr>do_steal := 1\<rparr>) d' w'
          else if opt = CHR ''v'' then
            Exit 0 (emit [Fprintf 1 ''This is reptyr version %s.\<newline>'' [PStr (reptyr_version E)],
                          Fprintf 1 '' by Nelson Elhage <nelhage@nelhage.com>\<newline>'' [],
                          Fprintf 1 ''http://github.com/nelhage/reptyr/\<newline>'' []] w')
          else if opt = CHR ''V'' then parse_options E argv' opts d' (w'\<lparr>verbose := 1\<rparr>)
          else Exit 1 (emit (usage (hd argv')) w'))"
  by pat_completeness auto
termination
  by (relation "measure (\<lambda>(E, argv, opts, d, w). getopt_left argv d)")
     (auto dest!: getopt_decreases[OF sym])

declare parse_options.simps [simp del]

text \<open>Lines 240--247: the new pseudo-terminal, unless stealing.\<close>

definition allocate_pty :: "os_env \<Rightarrow> world \<Rightarrow> int outcome" where
  "allocate_pty E w =
     (let pty = get_pt_r E; w1 = emit [Get_pt] w
      in if pty < 0 then die ''Unable to allocate a new pseudo-terminal: %m'' [] w1
         else
           (let w2 = emit [Unlockpt pty] w1
            in if unlockpt_r E < 0 then die ''Unable to unlockpt: %m'' [] w2
               else
                 (let w3 = emit [Grantpt pty] w2
                  in if grantpt_r E < 0 then die ''Unable to grantpt: %m'' [] w3
                     else Ret pty w3)))"

text \<open>
  Lines 250--260: the pid. \<^verbatim>\<open>(pid_t)t\<close> keeps the low 32 bits of the \<^verbatim>\<open>long\<close>, read as
  signed.
\<close>

definition parse_pid :: "string \<Rightarrow> world \<Rightarrow> int outcome" where
  "parse_pid arg w =
     (case strtol10 arg of (t, endptr, errno) \<Rightarrow>
        if errno = ERANGE then die ''Invalid pid: %m'' [] w
        else if endptr \<noteq> [] then die ''Invalid pid: must be integer'' [] w
        else
          (let child = sint (word_of_int t :: 32 word)
           in if child < t \<or> t < 1 then die ''Invalid pid: %s'' [PStrerror ERANGE] w
              else Ret child w))"

text \<open>Lines 262--273: steal or attach. It returns the descriptor to relay on.\<close>

definition attach :: "os_env \<Rightarrow> options \<Rightarrow> int \<Rightarrow> int \<Rightarrow> world \<Rightarrow> int outcome" where
  "attach E opts child pty w =
     (let (err, pty', w1) =
            (if do_steal opts \<noteq> 0
             then (fst (steal_pty_r E), snd (steal_pty_r E), emit [Steal_pty child] w)
             else (attach_child_r E, pty,
                   emit [Attach_child child (ptsname_r E pty) (force_stdio opts)] w))
      in if err \<noteq> 0 then
           Exit 1 (emit ([Fprintf 2 ''Unable to attach to pid %d: %s\<newline>'' [PInt child, PStrerror err]]
                         @ (if err = EPERM then [Check_ptrace_scope] else [])) w1)
         else Ret pty' w1)"

text \<open>Lines 279--294: what the child does after \<^verbatim>\<open>fork\<close>.\<close>

definition child_steps :: "os_env \<Rightarrow> options \<Rightarrow> string list \<Rightarrow> int \<Rightarrow> child_step list" where
  "child_steps E opts argv pty =
     [Setenv ''REPTYR_PTY'' (ptsname_r E pty) 1]
     @ (if unattached_script_redirection opts \<noteq> 0
        then [Setpgid_to_parent, Setsid,
              Open_dup2 (ptsname_r E pty) ''O_RDONLY'' [0],
              Open_dup2 (ptsname_r E pty) ''O_WRONLY'' [1, 2]]
        else [])
     @ [Close pty, Execvp (argv ! 2) (drop 2 argv)]
     @ (if execvp_fails E then [Child_exit 1] else [])"

text \<open>Lines 275--296: create mode. \<open>argc\<close> is the count \<^verbatim>\<open>main\<close> was given, \<open>argv\<close> the
  vector as the option loop has left it.\<close>

definition create :: "os_env \<Rightarrow> options \<Rightarrow> nat \<Rightarrow> string list \<Rightarrow> int \<Rightarrow> world \<Rightarrow> world" where
  "create E opts argc argv pty w =
     (let w1 = emit [Fprintf 1 ''Opened a new pty: %s\<newline>'' [PStr (ptsname_r E pty)], Fflush 1] w
      in if argc > 2 then
           (let w2 = emit [Fork] w1
            in if fork_r E > 0
               then w2\<lparr>children := children w2 @ [child_steps E opts argv pty]\<rparr>
               else w2)
         else w1)"

text \<open>
  Lines 301--305: the restore loop. A script entry is the \<^verbatim>\<open>errno\<close> of one
  \<^verbatim>\<open>tcsetattr\<close> call, 0 when the call succeeds (\<^verbatim>\<open>errno\<close> then keeps the 0 the loop
  has just stored).
\<close>

function restore_termios :: "termios \<Rightarrow> world \<Rightarrow> (unit outcome) option" where
  "restore_termios saved w =
     (case tcsetattr_q w of
        [] \<Rightarrow> None
      | errno # q \<Rightarrow>
          (let w1 = emit [Tcsetattr saved] (w\<lparr>tcsetattr_q := q\<rparr>)
           in if errno \<noteq> 0 \<and> errno \<noteq> EINTR then Some (die ''Unable to tcsetattr: %m'' [] w1)
              else if errno = EINTR then restore_termios saved w1
              else Some (Ret () w1)))"
  by pat_completeness auto
termination
  by (relation "measure (\<lambda>(saved, w). length (tcsetattr_q w))") (auto simp: emit_def)

declare restore_termios.simps [simp del]

text \<open>Lines 299--307: raw mode, the relay, the restore loop, \<^verbatim>\<open>return 0\<close>.\<close>

definition session :: "os_env \<Rightarrow> int \<Rightarrow> world \<Rightarrow> (int \<times> world) option" where
  "session E pty w =
     (case setup_raw E (stack_termios E) w of
        Exit st w1 \<Rightarrow> Some (st, w1)
      | Ret saved_termios w1 \<Rightarrow>
          (case do_proxy E pty w1 of
             None \<Rightarrow> None
           | Some (c, w2) \<Rightarrow>
               (case restore_termios saved_termios w2 of
                  None \<Rightarrow> None
                | Some (Exit st w3) \<Rightarrow> Some (st, w3)
                | Some (Ret u w3) \<Rightarrow> Some (0, w3))))"

text \<open>
  \<^verbatim>\<open>main\<close>: the exit status and the final world, or \<open>None\<close> while the run has not
  ended. \<open>argv0\<close> is the vector the process was started with (at least the program's
  name, so \<^verbatim>\<open>argc\<close> is its length); \<open>argv\<close> is what the option loop has made of it.
\<close>

definition main :: "os_env \<Rightarrow> string list \<Rightarrow> world \<Rightarrow> (int \<times> world) option" where
  "main E argv0 w =
     (case parse_options E argv0
             \<lparr>do_attach = 1, force_stdio = 0, do_steal = 0, unattached_script_redirection = 0\<rparr>
             getopt_init w of
        Exit st w1 \<Rightarrow> Some (st, w1)
      | Ret (opts, optind, argv) w1 \<Rightarrow>
          if do_attach opts \<noteq> 0 \<and> optind \<ge> length argv0 then
            Some (1, emit (Fprintf 2 ''%s: No pid specified to attach\<newline>'' [PStr (hd argv)]
                           # usage (hd argv)) w1)
          else
            (case (if do_steal opts = 0 then allocate_pty E w1 else Ret (stack_pty E) w1) of
               Exit st w2 \<Rightarrow> Some (st, w2)
             | Ret pty w2 \<Rightarrow>
                 if do_attach opts \<noteq> 0 then
                   (case parse_pid (argv ! optind) w2 of
                      Exit st w3 \<Rightarrow> Some (st, w3)
                    | Ret child w3 \<Rightarrow>
                        (case attach E opts child pty w3 of
                           Exit st w4 \<Rightarrow> Some (st, w4)
                         | Ret pty' w4 \<Rightarrow> session E pty' w4))
                 else session E pty (create E opts (length argv0) argv pty w2)))"

text \<open>
  The pid arguments \<^verbatim>\<open>main\<close> accepts, said without the code: optional white space, an
  optional plus sign, then nothing but decimal digits, at least one, whose value lies
  between 1 and the largest \<^verbatim>\<open>pid_t\<close>.
\<close>

definition pid_text :: "string \<Rightarrow> bool" where
  "pid_text s =
     (let body = dropWhile isspace s;
          ds = (if body \<noteq> [] \<and> hd body = CHR ''+'' then tl body else body)
      in ds \<noteq> [] \<and> list_all isdigit ds \<and> 1 \<le> digits_value ds \<and> digits_value ds \<le> 2 ^ 31 - 1)"

text \<open>How many size propagations (\<^verbatim>\<open>TIOCSWINSZ\<close> calls) a piece of a run holds.\<close>

fun is_resize :: "action \<Rightarrow> bool" where
  "is_resize (Ioctl_swinsz fd sz) = True"
| "is_resize a = False"

definition resizes :: "action list \<Rightarrow> nat" where
  "resizes tr = length (filter is_resize tr)"

text \<open>
  A wake-up that ends the loop by itself: \<^verbatim>\<open>pselect\<close> failing with anything but \<^verbatim>\<open>EINTR\<close>.
  A \<^verbatim>\<open>read\<close> that fails.
\<close>

definition wait_failed :: "psel \<Rightarrow> bool" where
  "wait_failed r = (case r of Psel_err e \<Rightarrow> e \<noteq> EINTR | Psel_ready a b \<Rightarrow> False)"

definition read_failed :: "rd \<Rightarrow> bool" where
  "read_failed x = (case x of Rd_err e \<Rightarrow> True | Rd_data bs \<Rightarrow> False)"

subsection \<open>Sample inputs\<close>

text \<open>
  The world when \<^verbatim>\<open>main\<close> starts: both globals as initialised (lines 39 and 117),
  nothing done yet, no answers scripted.
\<close>

definition world0 :: world where
  "world0 = \<lparr>verbose = 0, winch_happened = 0, tcsetattr_q = [], gwinsz_q = [],
     swinsz_q = [], pselect_q = [], read_q = [], write_q = [], trace = [], children = []\<rparr>"

text \<open>
  A sample environment: every call of the start-up succeeds, the terminal is in cooked
  mode, \<^verbatim>\<open>POSIXLY_CORRECT\<close> is not set, and the uninitialised locals hold leftovers.
\<close>

definition cooked :: termios where
  "cooked = \<lparr>c_iflag = 0x4500, c_oflag = 5, c_cflag = 0xBF, c_lflag = 0x8A3B, c_cc = [3, 28, 127]\<rparr>"

definition leftover :: termios where
  "leftover = \<lparr>c_iflag = 0xDEAD, c_oflag = 0xBEEF, c_cflag = 0, c_lflag = 0xFFFF, c_cc = []\<rparr>"

definition sample_env :: os_env where
  "sample_env =
     \<lparr>stack_termios = leftover, stack_pty = 77, get_pt_r = 5, unlockpt_r = 0, grantpt_r = 0,
      ptsname_r = (\<lambda>fd. ''/dev/pts/7''), attach_child_r = 0, steal_pty_r = (0, 6),
      fork_r = 4321, execvp_fails = False, tcgetattr_r = Some cooked,
      cfmakeraw_r = (\<lambda>t. t\<lparr>c_iflag := 0, c_oflag := 4, c_lflag := 0x8A20\<rparr>),
      tcsetattr_raw_r = 0, sigprocmask_r = 0, reptyr_version = ''0.10.0'',
      posixly_correct = False\<rparr>"

section \<open>Properties of \<^verbatim>\<open>writeall\<close>\<close>



text \<open>
  What a returning call has written: the chunks of its \<^verbatim>\<open>write\<close> calls, which make up
  the first \<open>count\<close> bytes of the buffer when it returns 0 and fewer when it does not.
\<close>

lemma writeall_chunks:
  "writeall fd buf count w = Some (rv, w') \<Longrightarrow>
   \<exists>chunks. trace w' = trace w @ map (Write fd) chunks
     \<and> (rv = 0 \<longrightarrow> concat chunks = take (nat count) buf)
     \<and> (rv \<noteq> 0 \<longrightarrow> rv = - 1 \<and> int (length (concat chunks)) < count)"
proof (induction fd buf count w arbitrary: rv w' rule: writeall.induct)
  case (1 fd buf count w)
  show ?case
  proof (cases "count > 0")
    case False
    with "1.prems" show ?thesis
      by (subst (asm) writeall.simps) auto
  next
    case pos: True
    show ?thesis
    proof (cases "write_q w")
      case Nil
      with "1.prems" pos show ?thesis
        by (subst (asm) writeall.simps) (simp add: sys_write_def)
    next
      case (Cons r q)
      show ?thesis
      proof (cases r)
        case (Wr_err e)
        have sw: "sys_write fd buf count w = Some (- 1, e, w\<lparr>write_q := q\<rparr>)"
          using Cons Wr_err by (simp add: sys_write_def)
        show ?thesis
        proof (cases "e = EINTR")
          case True
          have "writeall fd buf count (w\<lparr>write_q := q\<rparr>) = Some (rv, w')"
            using "1.prems" pos sw True by (subst (asm) writeall.simps) simp
          from "1.IH"(1)[OF pos sw refl refl _ True this] show ?thesis by simp
        next
          case False
          have "rv = - 1 \<and> w' = w\<lparr>write_q := q\<rparr>"
            using "1.prems" pos sw False by (subst (asm) writeall.simps) auto
          then show ?thesis using pos by (intro exI[of _ "[]"]) simp
        qed
      next
        case (Wr_ok n)
        define k where "k = min (int n) count"
        define w1 where "w1 = emit [Write fd (take (nat k) buf)] (w\<lparr>write_q := q\<rparr>)"
        have sw: "sys_write fd buf count w = Some (k, 0, w1)"
          using Cons Wr_ok by (simp add: sys_write_def k_def w1_def Let_def)
        have k0: "0 \<le> k" "k \<le> count" using pos by (auto simp: k_def)
        have rec: "writeall fd (drop (nat k) buf) (count - k) w1 = Some (rv, w')"
          using "1.prems" pos sw k0 by (subst (asm) writeall.simps) simp
        from "1.IH"(2)[OF pos sw refl refl _ rec] k0
        obtain chunks where ch: "trace w' = trace w1 @ map (Write fd) chunks"
            "rv = 0 \<longrightarrow> concat chunks = take (nat (count - k)) (drop (nat k) buf)"
            "rv \<noteq> 0 \<longrightarrow> rv = - 1 \<and> int (length (concat chunks)) < count - k"
          by auto
        have tr: "trace w1 = trace w @ [Write fd (take (nat k) buf)]"
          by (simp add: w1_def emit_def)
        have split: "take (nat k) buf @ take (nat (count - k)) (drop (nat k) buf)
                     = take (nat count) buf"
        proof -
          have "nat count = nat k + nat (count - k)" using k0 by simp
          then show ?thesis by (simp add: take_add)
        qed
        show ?thesis
          using ch tr split k0
          by (intro exI[of _ "take (nat k) buf # chunks"]) auto
      qed
    qed
  qed
qed




section \<open>Resizing\<close>

lemma resize_pty_winch:
  "resize_pty pty w = Some w' \<Longrightarrow> winch_happened w' = winch_happened w"
  by (auto simp: resize_pty_def ioctl_gwinsz_def ioctl_swinsz_def emit_def Let_def
           split: list.splits option.splits if_splits)

lemma proxy_loop_winch:
  assumes "winch_happened w \<noteq> 0"
  shows "proxy_loop pty w =
           (case resize_pty pty (w\<lparr>winch_happened := 0\<rparr>) of
              None \<Rightarrow> None
            | Some w1 \<Rightarrow> proxy_loop pty w1)"
proof (cases "resize_pty pty (w\<lparr>winch_happened := 0\<rparr>)")
  case None
  with assms show ?thesis by (subst proxy_loop.simps) simp
next
  case (Some w1)
  then have z: "winch_happened w1 = 0" by (auto dest: resize_pty_winch)
  have "proxy_loop pty w = (case Some w1 of None \<Rightarrow> None | Some w1 \<Rightarrow>
          (case sys_pselect w1 of
             None \<Rightarrow> None
           | Some (Psel_err e, w2) \<Rightarrow>
               if e = EINTR then proxy_loop pty w2
               else Some (Wait_error e, emit [Fprintf 2 ''select: %m'' []] w2)
           | Some (Psel_ready isset0 issetp, w2) \<Rightarrow>
               (case (if isset0 then proxy_local pty w2 else Some (Go w2)) of
                  None \<Rightarrow> None
                | Some (Stop c w3) \<Rightarrow> Some (c, w3)
                | Some (Go w3) \<Rightarrow>
                    (case (if issetp then proxy_target pty w3 else Some (Go w3)) of
                       None \<Rightarrow> None
                     | Some (Stop c w4) \<Rightarrow> Some (c, w4)
                     | Some (Go w4) \<Rightarrow> proxy_loop pty w4))))"
    using assms Some by (subst proxy_loop.simps) simp
  also have "\<dots> = proxy_loop pty w1"
    using z by (subst (3) proxy_loop.simps) simp
  finally show ?thesis using Some by simp
qed

lemma resize_pty_failed_query:
  "gwinsz_q w = None # gq \<Longrightarrow> swinsz_q w = rv # sq \<Longrightarrow>
   resize_pty pty w =
     Some (emit (Ioctl_swinsz pty \<lparr>ws_row = 30, ws_col = 80, ws_xpixel = 640, ws_ypixel = 480\<rparr>
                 # (if rv < 0 then [Fprintf 2 ''Cannot set terminal size\<newline>'' []] else []))
             (w\<lparr>gwinsz_q := gq, swinsz_q := sq\<rparr>))"
  by (simp add: resize_pty_def ioctl_gwinsz_def ioctl_swinsz_def emit_def Let_def)

lemmas resize_eval =
  resize_pty_def ioctl_gwinsz_def ioctl_swinsz_def emit_def world0_def Let_def

lemmas proxy_eval =
  proxy_loop.simps do_proxy_def sys_pselect_def sys_read_def proxy_local_def proxy_target_def
  do_winch_def writeall.simps sys_write_def resize_eval EINTR_def SIGWINCH_def
  sample_env_def

text \<open>
  Claim C5, as amended. Whenever the size query on the controlling terminal fails,
  \<^verbatim>\<open>resize_pty\<close> applies to the pty exactly the fixed size of 30 rows by 80 columns with
  pixel dimensions 640 by 480 (not zero); if applying it fails, that is logged and the
  function still returns. This is so for the call at start-up (second part) and for the
  call the loop makes when it finds the resize flag set (third part).
\<close>

theorem resize_pty_fallback:
  "(gwinsz_q w = None # gq \<and> swinsz_q w = rv # sq \<longrightarrow>
      resize_pty pty w =
        Some (emit (Ioctl_swinsz pty \<lparr>ws_row = 30, ws_col = 80, ws_xpixel = 640, ws_ypixel = 480\<rparr>
                    # (if rv < 0 then [Fprintf 2 ''Cannot set terminal size\<newline>'' []] else []))
                (w\<lparr>gwinsz_q := gq, swinsz_q := sq\<rparr>)))
   \<and> (sigprocmask_r E \<noteq> - 1 \<and> gwinsz_q w = None # gq \<and> swinsz_q w = rv # sq \<longrightarrow>
      do_proxy E pty w =
        proxy_loop pty
          (emit ([Sigprocmask_block SIGWINCH, Sigaction SIGWINCH,
                  Ioctl_swinsz pty \<lparr>ws_row = 30, ws_col = 80, ws_xpixel = 640, ws_ypixel = 480\<rparr>]
                 @ (if rv < 0 then [Fprintf 2 ''Cannot set terminal size\<newline>'' []] else []))
             (w\<lparr>gwinsz_q := gq, swinsz_q := sq\<rparr>)))
   \<and> (winch_happened w \<noteq> 0 \<and> gwinsz_q w = None # gq \<and> swinsz_q w = rv # sq \<longrightarrow>
      proxy_loop pty w =
        proxy_loop pty
          (emit (Ioctl_swinsz pty \<lparr>ws_row = 30, ws_col = 80, ws_xpixel = 640, ws_ypixel = 480\<rparr>
                 # (if rv < 0 then [Fprintf 2 ''Cannot set terminal size\<newline>'' []] else []))
             (w\<lparr>winch_happened := 0, gwinsz_q := gq, swinsz_q := sq\<rparr>)))"
proof (intro conjI impI)
  assume "gwinsz_q w = None # gq \<and> swinsz_q w = rv # sq"
  then show "resize_pty pty w =
        Some (emit (Ioctl_swinsz pty \<lparr>ws_row = 30, ws_col = 80, ws_xpixel = 640, ws_ypixel = 480\<rparr>
                    # (if rv < 0 then [Fprintf 2 ''Cannot set terminal size\<newline>'' []] else []))
                (w\<lparr>gwinsz_q := gq, swinsz_q := sq\<rparr>))"
    by (simp add: resize_pty_failed_query)
next
  assume a: "sigprocmask_r E \<noteq> - 1 \<and> gwinsz_q w = None # gq \<and> swinsz_q w = rv # sq"
  let ?w1 = "emit [Sigaction SIGWINCH] (emit [Sigprocmask_block SIGWINCH] w)"
  have "gwinsz_q ?w1 = None # gq" "swinsz_q ?w1 = rv # sq"
    using a by (simp_all add: emit_def)
  from resize_pty_failed_query[OF this, of pty] a
  show "do_proxy E pty w =
        proxy_loop pty
          (emit ([Sigprocmask_block SIGWINCH, Sigaction SIGWINCH,
                  Ioctl_swinsz pty \<lparr>ws_row = 30, ws_col = 80, ws_xpixel = 640, ws_ypixel = 480\<rparr>]
                 @ (if rv < 0 then [Fprintf 2 ''Cannot set terminal size\<newline>'' []] else []))
             (w\<lparr>gwinsz_q := gq, swinsz_q := sq\<rparr>))"
    by (simp add: do_proxy_def Let_def emit_def)
next
  assume a: "winch_happened w \<noteq> 0 \<and> gwinsz_q w = None # gq \<and> swinsz_q w = rv # sq"
  let ?w1 = "w\<lparr>winch_happened := 0\<rparr>"
  have "gwinsz_q ?w1 = None # gq" "swinsz_q ?w1 = rv # sq"
    using a by simp_all
  from resize_pty_failed_query[OF this, of pty] a
  show "proxy_loop pty w =
        proxy_loop pty
          (emit (Ioctl_swinsz pty \<lparr>ws_row = 30, ws_col = 80, ws_xpixel = 640, ws_ypixel = 480\<rparr>
                 # (if rv < 0 then [Fprintf 2 ''Cannot set terminal size\<newline>'' []] else []))
             (w\<lparr>winch_happened := 0, gwinsz_q := gq, swinsz_q := sq\<rparr>))"
    by (simp add: proxy_loop_winch emit_def)
qed

theorem resize_pty_fallback_witness:
  "resize_pty 5 (world0\<lparr>gwinsz_q := [None, None], swinsz_q := [- 1, 0]\<rparr>)
     = Some (world0\<lparr>gwinsz_q := [None], swinsz_q := [0],
               trace := [Ioctl_swinsz 5 \<lparr>ws_row = 30, ws_col = 80, ws_xpixel = 640, ws_ypixel = 480\<rparr>,
                         Fprintf 2 ''Cannot set terminal size\<newline>'' []]\<rparr>)
   \<and> do_proxy sample_env 5
        (world0\<lparr>gwinsz_q := [None], swinsz_q := [0], pselect_q := [(False, Psel_err 5)]\<rparr>)
     = Some (Wait_error 5,
             world0\<lparr>trace := [Sigprocmask_block 28, Sigaction 28,
                         Ioctl_swinsz 5 \<lparr>ws_row = 30, ws_col = 80, ws_xpixel = 640, ws_ypixel = 480\<rparr>,
                         Fprintf 2 ''select: %m'' []]\<rparr>)
   \<and> proxy_loop 5
        (world0\<lparr>winch_happened := 1, gwinsz_q := [None], swinsz_q := [0],
                pselect_q := [(False, Psel_err 5)]\<rparr>)
     = Some (Wait_error 5,
             world0\<lparr>trace := [Ioctl_swinsz 5 \<lparr>ws_row = 30, ws_col = 80, ws_xpixel = 640, ws_ypixel = 480\<rparr>,
                         Fprintf 2 ''select: %m'' []]\<rparr>)"
proof -
  have a: "resize_pty 5 (world0\<lparr>gwinsz_q := [None, None], swinsz_q := [- 1, 0]\<rparr>)
     = Some (world0\<lparr>gwinsz_q := [None], swinsz_q := [0],
               trace := [Ioctl_swinsz 5 \<lparr>ws_row = 30, ws_col = 80, ws_xpixel = 640, ws_ypixel = 480\<rparr>,
                         Fprintf 2 ''Cannot set terminal size\<newline>'' []]\<rparr>)"
    using resize_pty_fallback[where w = "world0\<lparr>gwinsz_q := [None, None], swinsz_q := [- 1, 0]\<rparr>"
            and gq = "[None]" and sq = "[0]" and rv = "- 1" and pty = 5]
    by (simp add: emit_def world0_def)
  have b: "do_proxy sample_env 5
        (world0\<lparr>gwinsz_q := [None], swinsz_q := [0], pselect_q := [(False, Psel_err 5)]\<rparr>)
     = Some (Wait_error 5,
             world0\<lparr>trace := [Sigprocmask_block 28, Sigaction 28,
                         Ioctl_swinsz 5 \<lparr>ws_row = 30, ws_col = 80, ws_xpixel = 640, ws_ypixel = 480\<rparr>,
                         Fprintf 2 ''select: %m'' []]\<rparr>)"
    using resize_pty_fallback[where E = sample_env and pty = 5 and rv = 0
            and w = "world0\<lparr>gwinsz_q := [None], swinsz_q := [0], pselect_q := [(False, Psel_err 5)]\<rparr>"
            and gq = "[]" and sq = "[]"]
    by (simp add: proxy_eval)
  have c: "proxy_loop 5
        (world0\<lparr>winch_happened := 1, gwinsz_q := [None], swinsz_q := [0],
                pselect_q := [(False, Psel_err 5)]\<rparr>)
     = Some (Wait_error 5,
             world0\<lparr>trace := [Ioctl_swinsz 5 \<lparr>ws_row = 30, ws_col = 80, ws_xpixel = 640, ws_ypixel = 480\<rparr>,
                         Fprintf 2 ''select: %m'' []]\<rparr>)"
    using resize_pty_fallback[where pty = 5 and rv = 0
            and w = "world0\<lparr>winch_happened := 1, gwinsz_q := [None], swinsz_q := [0],
                pselect_q := [(False, Psel_err 5)]\<rparr>"
            and gq = "[]" and sq = "[]"]
    by (simp add: proxy_eval)
  from a b c show ?thesis by blast
qed

theorem resize_pty_fallback_counterexample:
  "resize_pty 5 (world0\<lparr>gwinsz_q := [None], swinsz_q := [0]\<rparr>)
     = Some (world0\<lparr>trace := [Ioctl_swinsz 5
               \<lparr>ws_row = 30, ws_col = 80, ws_xpixel = 640, ws_ypixel = 480\<rparr>]\<rparr>)
   \<and> resize_pty 5 (world0\<lparr>gwinsz_q := [None], swinsz_q := [0]\<rparr>)
     \<noteq> Some (world0\<lparr>trace := [Ioctl_swinsz 5
               \<lparr>ws_row = 30, ws_col = 80, ws_xpixel = 0, ws_ypixel = 0\<rparr>]\<rparr>)"
  by (simp add: resize_pty_def ioctl_gwinsz_def ioctl_swinsz_def emit_def world0_def)

section \<open>Raw mode and its restoration\<close>

lemma emit_emit: "emit bs (emit as w) = emit (as @ bs) w"
  by (simp add: emit_def)

lemma restore_termios_ok:
  "tcsetattr_q w = replicate k EINTR @ 0 # q \<Longrightarrow>
   restore_termios saved w =
     Some (Ret () (emit (replicate (Suc k) (Tcsetattr saved)) (w\<lparr>tcsetattr_q := q\<rparr>)))"
proof (induction k arbitrary: w)
  case 0
  then show ?case
    by (subst restore_termios.simps) (simp add: EINTR_def emit_def)
next
  case (Suc k)
  let ?w1 = "emit [Tcsetattr saved] (w\<lparr>tcsetattr_q := replicate k EINTR @ 0 # q\<rparr>)"
  have q1: "tcsetattr_q ?w1 = replicate k EINTR @ 0 # q" by (simp add: emit_def)
  have "restore_termios saved w = restore_termios saved ?w1"
    using Suc.prems by (subst restore_termios.simps) (simp add: EINTR_def)
  also have "\<dots> = Some (Ret () (emit (replicate (Suc k) (Tcsetattr saved)) (?w1\<lparr>tcsetattr_q := q\<rparr>)))"
    by (rule Suc.IH[OF q1])
  finally show ?case by (simp add: emit_def)
qed

lemma restore_termios_fatal:
  "tcsetattr_q w = replicate k EINTR @ e # q \<Longrightarrow> e \<noteq> 0 \<Longrightarrow> e \<noteq> EINTR \<Longrightarrow>
   restore_termios saved w =
     Some (Exit 1 (emit (replicate (Suc k) (Tcsetattr saved)
                         @ x_debug (Some ''[!] '') ''Unable to tcsetattr: %m'' [])
                     (w\<lparr>tcsetattr_q := q\<rparr>)))"
proof (induction k arbitrary: w)
  case 0
  then show ?case
    by (subst restore_termios.simps) (simp add: emit_def die_def)
next
  case (Suc k)
  let ?w1 = "emit [Tcsetattr saved] (w\<lparr>tcsetattr_q := replicate k EINTR @ e # q\<rparr>)"
  have q1: "tcsetattr_q ?w1 = replicate k EINTR @ e # q" by (simp add: emit_def)
  have "restore_termios saved w = restore_termios saved ?w1"
    using Suc.prems by (subst restore_termios.simps) (simp add: EINTR_def)
  also have "\<dots> = Some (Exit 1 (emit (replicate (Suc k) (Tcsetattr saved)
                         @ x_debug (Some ''[!] '') ''Unable to tcsetattr: %m'' [])
                     (?w1\<lparr>tcsetattr_q := q\<rparr>)))"
    by (rule Suc.IH[OF q1 Suc.prems(2,3)])
  finally show ?case by (simp add: emit_def)
qed

lemmas session_eval =
  session_def setup_raw_def restore_termios.simps die_def x_debug_def proxy_eval
  cooked_def leftover_def

text \<open>
  Claim C1. \<open>session\<close> is lines 299--307 of \<^verbatim>\<open>main\<close>. Once raw mode is set up and
  \<^verbatim>\<open>do_proxy\<close> has returned, for whichever reason \<open>c\<close>, the run goes on with the restore
  loop alone: it calls \<^verbatim>\<open>tcsetattr\<close> with the saved snapshot once more after each
  interrupted call; when a call succeeds the process ends with status 0, and at any
  other failure it dies (\<^verbatim>\<open>Unable to tcsetattr\<close>, status 1). The reason \<open>c\<close> has no
  influence on the result.
\<close>

theorem session_restores:
  "setup_raw E (stack_termios E) w = Ret saved wr \<and> do_proxy E pty wr = Some (c, wp) \<longrightarrow>
     (tcsetattr_q wp = replicate k EINTR @ 0 # q \<longrightarrow>
        session E pty w =
          Some (0, emit (replicate (Suc k) (Tcsetattr saved)) (wp\<lparr>tcsetattr_q := q\<rparr>)))
     \<and> (tcsetattr_q wp = replicate k EINTR @ e # q \<and> e \<noteq> 0 \<and> e \<noteq> EINTR \<longrightarrow>
        session E pty w =
          Some (1, emit (replicate (Suc k) (Tcsetattr saved)
                         @ x_debug (Some ''[!] '') ''Unable to tcsetattr: %m'' [])
                     (wp\<lparr>tcsetattr_q := q\<rparr>)))"
  by (auto simp: session_def restore_termios_ok restore_termios_fatal simp del: replicate.simps)

theorem session_restores_witness:
  "session sample_env 5
     (world0\<lparr>gwinsz_q := [Some \<lparr>ws_row = 24, ws_col = 80, ws_xpixel = 0, ws_ypixel = 0\<rparr>],
             swinsz_q := [0], pselect_q := [(False, Psel_ready False True)],
             read_q := [Rd_data []], tcsetattr_q := [4, 0]\<rparr>)
   = Some (0, world0\<lparr>trace :=
       [Tcsetattr (cfmakeraw_r sample_env cooked), Sigprocmask_block 28, Sigaction 28,
        Ioctl_swinsz 5 \<lparr>ws_row = 24, ws_col = 80, ws_xpixel = 0, ws_ypixel = 0\<rparr>,
        Tcsetattr cooked, Tcsetattr cooked]\<rparr>)
   \<and> session sample_env 5
     (world0\<lparr>gwinsz_q := [Some \<lparr>ws_row = 24, ws_col = 80, ws_xpixel = 0, ws_ypixel = 0\<rparr>],
             swinsz_q := [0], pselect_q := [(False, Psel_ready True False)],
             read_q := [Rd_err 5], tcsetattr_q := [4, 5, 0]\<rparr>)
   = Some (1, world0\<lparr>tcsetattr_q := [0], trace :=
       [Tcsetattr (cfmakeraw_r sample_env cooked), Sigprocmask_block 28, Sigaction 28,
        Ioctl_swinsz 5 \<lparr>ws_row = 24, ws_col = 80, ws_xpixel = 0, ws_ypixel = 0\<rparr>,
        Tcsetattr cooked, Tcsetattr cooked,
        Fprintf 2 ''%s'' [PStr ''[!] ''], Fprintf 2 ''Unable to tcsetattr: %m'' [],
        Fprintf 2 ''\<newline>'' []]\<rparr>)"
proof -
  let ?sz = "\<lparr>ws_row = 24, ws_col = 80, ws_xpixel = 0, ws_ypixel = 0\<rparr>"
  let ?raw = "cfmakeraw_r sample_env cooked"
  let ?wa = "world0\<lparr>gwinsz_q := [Some ?sz], swinsz_q := [0],
               pselect_q := [(False, Psel_ready False True)],
               read_q := [Rd_data []], tcsetattr_q := [4, 0]\<rparr>"
  let ?wb = "world0\<lparr>gwinsz_q := [Some ?sz], swinsz_q := [0],
               pselect_q := [(False, Psel_ready True False)],
               read_q := [Rd_err 5], tcsetattr_q := [4, 5, 0]\<rparr>"
  have a1: "setup_raw sample_env (stack_termios sample_env) ?wa
              = Ret cooked (?wa\<lparr>trace := [Tcsetattr ?raw]\<rparr>)"
    by (simp add: session_eval)
  have a2: "do_proxy sample_env 5 (?wa\<lparr>trace := [Tcsetattr ?raw]\<rparr>)
              = Some (Target_read 0,
                      world0\<lparr>tcsetattr_q := [4, 0],
                        trace := [Tcsetattr ?raw, Sigprocmask_block 28, Sigaction 28,
                                  Ioctl_swinsz 5 ?sz]\<rparr>)"
    by (simp add: session_eval)
  have a: "session sample_env 5 ?wa
     = Some (0, world0\<lparr>trace := [Tcsetattr ?raw, Sigprocmask_block 28, Sigaction 28,
                                  Ioctl_swinsz 5 ?sz, Tcsetattr cooked, Tcsetattr cooked]\<rparr>)"
    using a1 a2
      session_restores[where E = sample_env and pty = 5 and w = ?wa and saved = cooked
        and wr = "?wa\<lparr>trace := [Tcsetattr ?raw]\<rparr>" and c = "Target_read 0"
        and wp = "world0\<lparr>tcsetattr_q := [4, 0],
                    trace := [Tcsetattr ?raw, Sigprocmask_block 28, Sigaction 28,
                              Ioctl_swinsz 5 ?sz]\<rparr>"
        and k = "Suc 0" and q = "[]"]
    by (simp add: EINTR_def emit_def world0_def)
  have b1: "setup_raw sample_env (stack_termios sample_env) ?wb
              = Ret cooked (?wb\<lparr>trace := [Tcsetattr ?raw]\<rparr>)"
    by (simp add: session_eval)
  have b2: "do_proxy sample_env 5 (?wb\<lparr>trace := [Tcsetattr ?raw]\<rparr>)
              = Some (Local_read (- 1),
                      world0\<lparr>tcsetattr_q := [4, 5, 0],
                        trace := [Tcsetattr ?raw, Sigprocmask_block 28, Sigaction 28,
                                  Ioctl_swinsz 5 ?sz]\<rparr>)"
    by (simp add: session_eval)
  have b: "session sample_env 5 ?wb
     = Some (1, world0\<lparr>tcsetattr_q := [0],
                  trace := [Tcsetattr ?raw, Sigprocmask_block 28, Sigaction 28,
                            Ioctl_swinsz 5 ?sz, Tcsetattr cooked, Tcsetattr cooked,
                            Fprintf 2 ''%s'' [PStr ''[!] ''],
                            Fprintf 2 ''Unable to tcsetattr: %m'' [],
                            Fprintf 2 ''\<newline>'' []]\<rparr>)"
    using b1 b2
      session_restores[where E = sample_env and pty = 5 and w = ?wb and saved = cooked
        and wr = "?wb\<lparr>trace := [Tcsetattr ?raw]\<rparr>" and c = "Local_read (- 1)"
        and wp = "world0\<lparr>tcsetattr_q := [4, 5, 0],
                    trace := [Tcsetattr ?raw, Sigprocmask_block 28, Sigaction 28,
                              Ioctl_swinsz 5 ?sz]\<rparr>"
        and k = "Suc 0" and e = 5 and q = "[0]"]
    by (simp add: EINTR_def emit_def world0_def x_debug_def)
  from a b show ?thesis by simp
qed

text \<open>
  Claim C10. If \<^verbatim>\<open>tcgetattr\<close> fails in \<^verbatim>\<open>setup_raw\<close>, the snapshot keeps the value it
  had (in \<^verbatim>\<open>main\<close>: whatever the uninitialised \<^verbatim>\<open>saved_termios\<close> held), the only thing
  done is the message, so no \<^verbatim>\<open>tcsetattr\<close> is attempted, and the function returns: the
  session goes on to \<^verbatim>\<open>do_proxy\<close>. When that returns, the restore loop still calls
  \<^verbatim>\<open>tcsetattr\<close> with that unwritten value.
\<close>

theorem setup_raw_read_failure:
  "tcgetattr_r E = None \<longrightarrow>
     setup_raw E save w
       = Ret save (emit [Fprintf 2 ''Unable to read terminal attributes: %m'' []] w)
     \<and> (do_proxy E pty (emit [Fprintf 2 ''Unable to read terminal attributes: %m'' []] w)
          = Some (c, wp) \<and> tcsetattr_q wp = 0 # q \<longrightarrow>
        session E pty w
          = Some (0, emit [Tcsetattr (stack_termios E)] (wp\<lparr>tcsetattr_q := q\<rparr>)))"
  using restore_termios_ok[of wp 0 q "stack_termios E"]
  by (auto simp: session_def setup_raw_def)

theorem setup_raw_read_failure_witness:
  "setup_raw (sample_env\<lparr>tcgetattr_r := None\<rparr>) leftover world0
     = Ret leftover (world0\<lparr>trace := [Fprintf 2 ''Unable to read terminal attributes: %m'' []]\<rparr>)
   \<and> session (sample_env\<lparr>tcgetattr_r := None\<rparr>) 5
        (world0\<lparr>gwinsz_q := [Some \<lparr>ws_row = 24, ws_col = 80, ws_xpixel = 0, ws_ypixel = 0\<rparr>],
                swinsz_q := [0], pselect_q := [(False, Psel_err 9)], tcsetattr_q := [0]\<rparr>)
     = Some (0, world0\<lparr>trace :=
         [Fprintf 2 ''Unable to read terminal attributes: %m'' [],
          Sigprocmask_block 28, Sigaction 28,
          Ioctl_swinsz 5 \<lparr>ws_row = 24, ws_col = 80, ws_xpixel = 0, ws_ypixel = 0\<rparr>,
          Fprintf 2 ''select: %m'' [], Tcsetattr leftover]\<rparr>)"
proof -
  let ?E = "sample_env\<lparr>tcgetattr_r := None\<rparr>"
  let ?sz = "\<lparr>ws_row = 24, ws_col = 80, ws_xpixel = 0, ws_ypixel = 0\<rparr>"
  let ?w = "world0\<lparr>gwinsz_q := [Some ?sz], swinsz_q := [0],
              pselect_q := [(False, Psel_err 9)], tcsetattr_q := [0]\<rparr>"
  let ?w2 = "world0\<lparr>tcsetattr_q := [0],
               trace := [Fprintf 2 ''Unable to read terminal attributes: %m'' [],
                         Sigprocmask_block 28, Sigaction 28, Ioctl_swinsz 5 ?sz,
                         Fprintf 2 ''select: %m'' []]\<rparr>"
  have a: "setup_raw ?E leftover world0
     = Ret leftover (world0\<lparr>trace := [Fprintf 2 ''Unable to read terminal attributes: %m'' []]\<rparr>)"
    using setup_raw_read_failure[where E = ?E and save = leftover and w = world0]
    by (simp add: sample_env_def emit_def world0_def)
  have p: "do_proxy ?E 5 (emit [Fprintf 2 ''Unable to read terminal attributes: %m'' []] ?w)
             = Some (Wait_error 9, ?w2)"
    by (simp add: session_eval)
  have b: "session ?E 5 ?w
     = Some (0, world0\<lparr>trace :=
         [Fprintf 2 ''Unable to read terminal attributes: %m'' [],
          Sigprocmask_block 28, Sigaction 28, Ioctl_swinsz 5 ?sz,
          Fprintf 2 ''select: %m'' [], Tcsetattr leftover]\<rparr>)"
    using p setup_raw_read_failure[where E = ?E and pty = 5 and w = ?w and c = "Wait_error 9"
        and wp = ?w2 and q = "[]"]
    by (simp add: sample_env_def emit_def world0_def)
  from a b show ?thesis by simp
qed

section \<open>The relay loop, step by step\<close>

lemma resizes_append [simp]: "resizes (xs @ ys) = resizes xs + resizes ys"
  by (simp add: resizes_def)

lemma resizes_writes [simp]: "resizes (map (Write fd) chunks) = 0"
  by (induction chunks) (simp_all add: resizes_def)

lemma sys_write_winch:
  "sys_write fd buf count w = Some (rv, en, w') \<Longrightarrow> winch_happened w' = winch_happened w"
  by (auto simp: sys_write_def emit_def Let_def split: list.splits wr.splits)

lemma writeall_winch:
  "writeall fd buf count w = Some (rv, w') \<Longrightarrow> winch_happened w' = winch_happened w"
proof (induction fd buf count w arbitrary: rv w' rule: writeall.induct)
  case (1 fd buf count w)
  show ?case
  proof (cases "count > 0")
    case False
    with "1.prems" show ?thesis by (subst (asm) writeall.simps) simp
  next
    case pos: True
    from "1.prems" pos obtain r en w1 where sw: "sys_write fd buf count w = Some (r, en, w1)"
      by (subst (asm) writeall.simps) (auto split: option.splits)
    note f = sys_write_winch[OF sw]
    show ?thesis
    proof (cases "r < 0")
      case neg: True
      show ?thesis
      proof (cases "en = EINTR")
        case True
        have "writeall fd buf count w1 = Some (rv, w')"
          using "1.prems" pos sw neg True by (subst (asm) writeall.simps) simp
        from "1.IH"(1)[OF pos sw refl refl neg True this] f show ?thesis by simp
      next
        case False
        have "w' = w1"
          using "1.prems" pos sw neg False by (subst (asm) writeall.simps) simp
        with f show ?thesis by simp
      qed
    next
      case False
      have "writeall fd (drop (nat r) buf) (count - r) w1 = Some (rv, w')"
        using "1.prems" pos sw False by (subst (asm) writeall.simps) simp
      from "1.IH"(2)[OF pos sw refl refl False this] f show ?thesis by simp
    qed
  qed
qed

lemma resize_pty_effect:
  "resize_pty pty w = Some w' \<Longrightarrow>
   \<exists>new. trace w' = trace w @ new \<and> resizes new = 1"
  by (auto simp: resize_pty_def ioctl_gwinsz_def ioctl_swinsz_def emit_def Let_def resizes_def
           split: list.splits option.splits if_splits)

lemma writeall_frame:
  assumes "writeall fd buf count w = Some (rv, w')"
  shows "winch_happened w' = winch_happened w \<and> pselect_q w' = pselect_q w
   \<and> (\<exists>new. trace w' = trace w @ new \<and> resizes new = 0)"
proof -
  from writeall_chunks[OF assms] obtain chunks where
    "trace w' = trace w @ map (Write fd) chunks" by blast
  then have "\<exists>new. trace w' = trace w @ new \<and> resizes new = 0"
    by (intro exI[of _ "map (Write fd) chunks"]) simp
  with writeall_winch[OF assms] writeall_pselect_q[OF assms] show ?thesis by simp
qed

lemma proxy_local_effect:
  assumes "proxy_local pty w = Some s" and "s = Go w' \<or> s = Stop c w'"
  shows "winch_happened w' = winch_happened w \<and> pselect_q w' = pselect_q w
   \<and> (\<exists>new. trace w' = trace w @ new \<and> resizes new = 0)"
proof -
  from assms(1) obtain count buf wr where
    rd: "sys_read 0 4096 w = Some (count, buf, wr)"
    by (auto simp: proxy_local_def split: option.splits)
  then have fr: "winch_happened wr = winch_happened w" "pselect_q wr = pselect_q w"
      "trace wr = trace w"
    by (auto simp: sys_read_def split: list.splits rd.splits)
  show ?thesis
  proof (cases "count < 0")
    case True
    with assms rd have "w' = wr" by (auto simp: proxy_local_def)
    with fr show ?thesis by (simp add: resizes_def)
  next
    case False
    with assms rd obtain rv where "writeall pty buf count wr = Some (rv, w')"
      by (auto simp: proxy_local_def split: option.splits)
    from writeall_frame[OF this] fr show ?thesis by simp
  qed
qed

lemma proxy_target_effect:
  assumes "proxy_target pty w = Some s" and "s = Go w' \<or> s = Stop c w'"
  shows "winch_happened w' = winch_happened w \<and> pselect_q w' = pselect_q w
   \<and> (\<exists>new. trace w' = trace w @ new \<and> resizes new = 0)"
proof -
  from assms(1) obtain count buf wr where
    rd: "sys_read pty 4096 w = Some (count, buf, wr)"
    by (auto simp: proxy_target_def split: option.splits)
  then have fr: "winch_happened wr = winch_happened w" "pselect_q wr = pselect_q w"
      "trace wr = trace w"
    by (auto simp: sys_read_def split: list.splits rd.splits)
  show ?thesis
  proof (cases "count \<le> 0")
    case True
    with assms rd have "w' = wr" by (auto simp: proxy_target_def)
    with fr show ?thesis by (simp add: resizes_def)
  next
    case False
    with assms rd obtain rv where "writeall 1 buf count wr = Some (rv, w')"
      by (auto simp: proxy_target_def split: option.splits)
    from writeall_frame[OF this] fr show ?thesis by simp
  qed
qed

lemma sys_pselect_effect:
  assumes "sys_pselect w = Some (r, w')"
  shows "\<exists>sig. pselect_q w = (sig, r) # pselect_q w' \<and> trace w' = trace w
     \<and> winch_happened w' = (if sig then 1 else winch_happened w)"
proof (cases "pselect_q w")
  case Nil
  with assms show ?thesis by (simp add: sys_pselect_def)
next
  case (Cons e q)
  obtain sig r0 where e: "e = (sig, r0)" by (cases e)
  from assms Cons e have r: "r0 = r"
    and w': "w' = (if sig then do_winch SIGWINCH (w\<lparr>pselect_q := q\<rparr>) else w\<lparr>pselect_q := q\<rparr>)"
    by (simp_all add: sys_pselect_def Let_def)
  show ?thesis
  proof (cases sig)
    case True
    with Cons e r w' show ?thesis
      by (intro exI[of _ True]) (simp add: do_winch_def)
  next
    case False
    with Cons e r w' show ?thesis
      by (intro exI[of _ False]) simp
  qed
qed

lemma sys_write_read_q:
  "sys_write fd buf count w = Some (rv, en, w') \<Longrightarrow> read_q w' = read_q w"
  by (auto simp: sys_write_def emit_def Let_def split: list.splits wr.splits)

lemma writeall_read_q:
  "writeall fd buf count w = Some (rv, w') \<Longrightarrow> read_q w' = read_q w"
proof (induction fd buf count w arbitrary: rv w' rule: writeall.induct)
  case (1 fd buf count w)
  show ?case
  proof (cases "count > 0")
    case False
    with "1.prems" show ?thesis by (subst (asm) writeall.simps) simp
  next
    case pos: True
    from "1.prems" pos obtain r en w1 where sw: "sys_write fd buf count w = Some (r, en, w1)"
      by (subst (asm) writeall.simps) (auto split: option.splits)
    note f = sys_write_read_q[OF sw]
    show ?thesis
    proof (cases "r < 0")
      case neg: True
      show ?thesis
      proof (cases "en = EINTR")
        case True
        have "writeall fd buf count w1 = Some (rv, w')"
          using "1.prems" pos sw neg True by (subst (asm) writeall.simps) simp
        from "1.IH"(1)[OF pos sw refl refl neg True this] f show ?thesis by simp
      next
        case False
        have "w' = w1"
          using "1.prems" pos sw neg False by (subst (asm) writeall.simps) simp
        with f show ?thesis by simp
      qed
    next
      case False
      have "writeall fd (drop (nat r) buf) (count - r) w1 = Some (rv, w')"
        using "1.prems" pos sw False by (subst (asm) writeall.simps) simp
      from "1.IH"(2)[OF pos sw refl refl False this] f show ?thesis by simp
    qed
  qed
qed

lemma resize_pty_read_q:
  "resize_pty pty w = Some w' \<Longrightarrow> read_q w' = read_q w"
  by (auto simp: resize_pty_def ioctl_gwinsz_def ioctl_swinsz_def emit_def Let_def
           split: list.splits option.splits if_splits)

lemma sys_pselect_read_q:
  "sys_pselect w = Some (r, w') \<Longrightarrow> read_q w' = read_q w"
  by (auto simp: sys_pselect_def do_winch_def Let_def split: list.splits if_splits)

lemma proxy_local_go_read:
  assumes "proxy_local pty w = Some (Go w')"
  shows "\<exists>x. read_q w = x # read_q w' \<and> \<not> read_failed x"
proof -
  from assms obtain count buf wr where
    rd: "sys_read 0 4096 w = Some (count, buf, wr)"
    by (auto simp: proxy_local_def split: option.splits)
  with assms have nn: "\<not> count < 0" by (auto simp: proxy_local_def split: if_splits)
  with assms rd obtain rv where wa: "writeall pty buf count wr = Some (rv, w')"
    by (auto simp: proxy_local_def split: option.splits)
  from rd nn have "\<exists>x. read_q w = x # read_q wr \<and> \<not> read_failed x"
    by (auto simp: sys_read_def read_failed_def split: list.splits rd.splits)
  with writeall_read_q[OF wa] show ?thesis by simp
qed

lemma proxy_local_stop_read:
  "proxy_local pty w = Some (Stop c w') \<Longrightarrow>
   \<exists>e. read_q w = Rd_err e # read_q w' \<and> c = Local_read (- 1)"
  by (auto simp: proxy_local_def sys_read_def
           split: option.splits if_splits prod.splits list.splits rd.splits)

lemma proxy_target_go_read:
  assumes "proxy_target pty w = Some (Go w')"
  shows "\<exists>x. read_q w = x # read_q w' \<and> \<not> read_failed x"
proof -
  from assms obtain count buf wr where
    rd: "sys_read pty 4096 w = Some (count, buf, wr)"
    by (auto simp: proxy_target_def split: option.splits)
  with assms have nn: "\<not> count \<le> 0" by (auto simp: proxy_target_def split: if_splits)
  with assms rd obtain rv where wa: "writeall 1 buf count wr = Some (rv, w')"
    by (auto simp: proxy_target_def split: option.splits)
  from rd nn have "\<exists>x. read_q w = x # read_q wr \<and> \<not> read_failed x"
    by (auto simp: sys_read_def read_failed_def split: list.splits rd.splits)
  with writeall_read_q[OF wa] show ?thesis by simp
qed

lemma proxy_target_stop_read:
  "proxy_target pty w = Some (Stop c w') \<Longrightarrow>
   (\<exists>e. read_q w = Rd_err e # read_q w' \<and> c = Target_read (- 1))
   \<or> (read_q w = Rd_data [] # read_q w' \<and> c = Target_read 0)"
  by (auto simp: proxy_target_def sys_read_def min_def
           split: option.splits if_splits prod.splits list.splits rd.splits)


lemma proxy_loop_run:
  "proxy_loop pty w = Some (c, w') \<Longrightarrow>
   \<exists>used sig r rused rlast new.
      pselect_q w = used @ (sig, r) # pselect_q w'
    \<and> read_q w = rused @ rlast @ read_q w'
    \<and> trace w' = trace w @ new
    \<and> resizes new = (if winch_happened w \<noteq> 0 then 1 else 0) + length (filter fst used)
    \<and> list_all (\<lambda>e. \<not> wait_failed (snd e)) used
    \<and> list_all (\<lambda>x. \<not> read_failed x) rused
    \<and> winch_happened w' = (if sig then 1 else 0)
    \<and> ((\<exists>e. r = Psel_err e \<and> e \<noteq> EINTR \<and> c = Wait_error e \<and> rlast = [])
       \<or> (\<exists>b e. r = Psel_ready True b \<and> c = Local_read (- 1) \<and> rlast = [Rd_err e])
       \<or> (\<exists>a e. r = Psel_ready a True \<and> c = Target_read (- 1) \<and> rlast = [Rd_err e])
       \<or> (\<exists>a. r = Psel_ready a True \<and> c = Target_read 0 \<and> rlast = [Rd_data []]))"
proof (induction pty w arbitrary: c w' rule: proxy_loop.induct)
  case (1 pty w)
  let ?f = "if winch_happened w \<noteq> 0 then 1 else (0::nat)"
  let ?E = "\<lambda>r rlast. (\<exists>e. r = Psel_err e \<and> e \<noteq> EINTR \<and> c = Wait_error e \<and> rlast = [])
       \<or> (\<exists>b e. r = Psel_ready True b \<and> c = Local_read (- 1) \<and> rlast = [Rd_err e])
       \<or> (\<exists>a e. r = Psel_ready a True \<and> c = Target_read (- 1) \<and> rlast = [Rd_err e])
       \<or> (\<exists>a. r = Psel_ready a True \<and> c = Target_read 0 \<and> rlast = [Rd_data []])"
  let ?P = "\<lambda>w. \<exists>used sig r rused rlast new.
      pselect_q w = used @ (sig, r) # pselect_q w'
    \<and> read_q w = rused @ rlast @ read_q w'
    \<and> trace w' = trace w @ new
    \<and> resizes new = (if winch_happened w \<noteq> 0 then 1 else 0) + length (filter fst used)
    \<and> list_all (\<lambda>e. \<not> wait_failed (snd e)) used
    \<and> list_all (\<lambda>x. \<not> read_failed x) rused
    \<and> winch_happened w' = (if sig then 1 else 0)
    \<and> ?E r rlast"
  from "1.prems" obtain wt where top:
    "(if winch_happened w \<noteq> 0 then resize_pty pty (w\<lparr>winch_happened := 0\<rparr>) else Some w) = Some wt"
    by (subst (asm) proxy_loop.simps) (auto split: option.splits)
  have topfx: "pselect_q wt = pselect_q w \<and> read_q wt = read_q w \<and> winch_happened wt = 0
      \<and> (\<exists>n1. trace wt = trace w @ n1 \<and> resizes n1 = ?f)"
  proof (cases "winch_happened w \<noteq> 0")
    case True
    with top have r: "resize_pty pty (w\<lparr>winch_happened := 0\<rparr>) = Some wt" by simp
    from resize_pty_effect[OF r] resize_pty_winch[OF r] resize_pty_pselect_q[OF r]
      resize_pty_read_q[OF r] True
    show ?thesis by simp
  next
    case False
    with top show ?thesis by (simp add: resizes_def)
  qed
  then obtain n1 where n1: "trace wt = trace w @ n1" "resizes n1 = ?f" by blast
  from "1.prems" top obtain r ws where sel: "sys_pselect wt = Some (r, ws)"
    by (subst (asm) proxy_loop.simps) (auto split: option.splits)
  from sys_pselect_effect[OF sel] obtain sig where sg:
    "pselect_q wt = (sig, r) # pselect_q ws" "trace ws = trace wt"
    "winch_happened ws = (if sig then 1 else winch_happened wt)" by blast
  have sgr: "read_q ws = read_q w" using sys_pselect_read_q[OF sel] topfx by simp
  have fl: "winch_happened ws = (if sig then 1 else 0)"
    using sg(3) topfx by simp
  have fin: "\<And>wx nx rs rl. pselect_q wx = pselect_q ws \<Longrightarrow> trace wx = trace ws @ nx \<Longrightarrow>
      resizes nx = 0 \<Longrightarrow> winch_happened wx = winch_happened ws \<Longrightarrow>
      read_q ws = rs @ rl @ read_q wx \<Longrightarrow> list_all (\<lambda>x. \<not> read_failed x) rs \<Longrightarrow>
      ?E r rl \<Longrightarrow> w' = wx \<Longrightarrow> ?P w"
  proof -
    fix wx nx rs rl
    assume a: "pselect_q wx = pselect_q ws" "trace wx = trace ws @ nx" "resizes nx = 0"
      "winch_happened wx = winch_happened ws" "read_q ws = rs @ rl @ read_q wx"
      "list_all (\<lambda>x. \<not> read_failed x) rs" "w' = wx"
      and e: "?E r rl"
    have p1: "pselect_q w = [] @ (sig, r) # pselect_q w'" using a sg topfx by simp
    have p2: "read_q w = rs @ rl @ read_q w'" using a sgr by simp
    have p3: "trace w' = trace w @ (n1 @ nx)" using a sg n1 by simp
    have p4: "resizes (n1 @ nx) = ?f + length (filter fst ([]::(bool \<times> psel) list))"
      using a n1 by simp
    have p5: "list_all (\<lambda>e. \<not> wait_failed (snd e)) ([]::(bool \<times> psel) list)" by simp
    have p7: "winch_happened w' = (if sig then 1 else 0)" using a fl by simp
    from p1 p2 p3 p4 p5 a(6) p7 e show "?P w" by blast
  qed
  have cont: "\<And>wx nx rs. pselect_q wx = pselect_q ws \<Longrightarrow> trace wx = trace ws @ nx \<Longrightarrow>
      resizes nx = 0 \<Longrightarrow> winch_happened wx = winch_happened ws \<Longrightarrow>
      read_q ws = rs @ read_q wx \<Longrightarrow> list_all (\<lambda>x. \<not> read_failed x) rs \<Longrightarrow>
      \<not> wait_failed r \<Longrightarrow> ?P wx \<Longrightarrow> ?P w"
  proof -
    fix wx nx rs
    assume a: "pselect_q wx = pselect_q ws" "trace wx = trace ws @ nx" "resizes nx = 0"
      "winch_happened wx = winch_happened ws" "read_q ws = rs @ read_q wx"
      "list_all (\<lambda>x. \<not> read_failed x) rs" "\<not> wait_failed r"
      and "?P wx"
    then obtain used sig' r' rused rlast new where u:
      "pselect_q wx = used @ (sig', r') # pselect_q w'"
      "read_q wx = rused @ rlast @ read_q w'"
      "trace w' = trace wx @ new"
      "resizes new = (if winch_happened wx \<noteq> 0 then 1 else 0) + length (filter fst used)"
      "list_all (\<lambda>e. \<not> wait_failed (snd e)) used"
      "list_all (\<lambda>x. \<not> read_failed x) rused"
      "winch_happened w' = (if sig' then 1 else 0)"
      "?E r' rlast"
      by blast
    have p1: "pselect_q w = ((sig, r) # used) @ (sig', r') # pselect_q w'"
      using a u sg topfx by simp
    have p2: "read_q w = (rs @ rused) @ rlast @ read_q w'" using a u sgr by simp
    have p3: "trace w' = trace w @ (n1 @ nx @ new)" using a u sg n1 by simp
    have p4: "resizes (n1 @ nx @ new) = ?f + length (filter fst ((sig, r) # used))"
      using a u n1 fl by auto
    have p5: "list_all (\<lambda>e. \<not> wait_failed (snd e)) ((sig, r) # used)" using a u by simp
    have p6: "list_all (\<lambda>x. \<not> read_failed x) (rs @ rused)" using a u by simp
    from p1 p2 p3 p4 p5 p6 u(7) u(8) show "?P w" by blast
  qed
  show ?case
  proof (cases r)
    case (Psel_err e)
    show ?thesis
    proof (cases "e = EINTR")
      case True
      have rec: "proxy_loop pty ws = Some (c, w')"
        using "1.prems" top sel Psel_err True by (subst (asm) proxy_loop.simps) simp
      have z: "pselect_q ws = pselect_q ws" "trace ws = trace ws @ []" "resizes [] = 0"
        "winch_happened ws = winch_happened ws" "read_q ws = [] @ read_q ws"
        "list_all (\<lambda>x. \<not> read_failed x) []" "\<not> wait_failed r"
        using Psel_err True by (simp_all add: resizes_def wait_failed_def)
      show ?thesis by (rule cont[OF z "1.IH"(1)[OF top sel refl Psel_err True rec]])
    next
      case False
      have e: "w' = emit [Fprintf 2 ''select: %m'' []] ws" and ce: "c = Wait_error e"
        using "1.prems" top sel Psel_err False by (subst (asm) proxy_loop.simps; simp)+
      have z: "pselect_q (emit [Fprintf 2 ''select: %m'' []] ws) = pselect_q ws"
        "trace (emit [Fprintf 2 ''select: %m'' []] ws) = trace ws @ [Fprintf 2 ''select: %m'' []]"
        "resizes [Fprintf 2 ''select: %m'' []] = 0"
        "winch_happened (emit [Fprintf 2 ''select: %m'' []] ws) = winch_happened ws"
        "read_q ws = [] @ [] @ read_q (emit [Fprintf 2 ''select: %m'' []] ws)"
        "list_all (\<lambda>x. \<not> read_failed x) []"
        by (simp_all add: emit_def resizes_def)
      have ee: "?E r []" using Psel_err False ce by simp
      show ?thesis by (rule fin[OF z ee e])
    qed
  next
    case (Psel_ready a b)
    have nf: "\<not> wait_failed r" using Psel_ready by (simp add: wait_failed_def)
    from "1.prems" top sel Psel_ready obtain s1 where
      l: "(if a then proxy_local pty ws else Some (Go ws)) = Some s1"
      by (subst (asm) proxy_loop.simps) (auto split: option.splits)
    have lfx: "\<And>wl cl. s1 = Go wl \<or> s1 = Stop cl wl \<Longrightarrow>
        winch_happened wl = winch_happened ws \<and> pselect_q wl = pselect_q ws
        \<and> (\<exists>new. trace wl = trace ws @ new \<and> resizes new = 0)"
    proof -
      fix wl cl assume s: "s1 = Go wl \<or> s1 = Stop cl wl"
      show "winch_happened wl = winch_happened ws \<and> pselect_q wl = pselect_q ws
        \<and> (\<exists>new. trace wl = trace ws @ new \<and> resizes new = 0)"
      proof (cases a)
        case True
        with l have "proxy_local pty ws = Some s1" by simp
        from proxy_local_effect[OF this s] show ?thesis .
      next
        case False
        with l s show ?thesis by (auto simp: resizes_def)
      qed
    qed
    show ?thesis
    proof (cases s1)
      case (Stop c1 w1)
      have e: "w' = w1" and cc: "c = c1"
        using "1.prems" top sel Psel_ready l Stop by (subst (asm) proxy_loop.simps; simp)+
      have al: "a" "proxy_local pty ws = Some (Stop c1 w1)"
        using l Stop by (auto split: if_splits)
      from proxy_local_stop_read[OF al(2)] obtain er where
        er: "read_q ws = Rd_err er # read_q w1" "c1 = Local_read (- 1)" by blast
      from lfx[of w1 c1] Stop obtain nx where nx: "pselect_q w1 = pselect_q ws"
        "trace w1 = trace ws @ nx" "resizes nx = 0" "winch_happened w1 = winch_happened ws"
        by blast
      have rr: "read_q ws = [] @ [Rd_err er] @ read_q w1"
        "list_all (\<lambda>x. \<not> read_failed x) []" using er by simp_all
      have ee: "?E r [Rd_err er]" using Psel_ready al(1) cc er(2) by simp
      show ?thesis by (rule fin[OF nx rr ee e])
    next
      case (Go w3)
      from lfx[of w3] Go obtain n3 where l3: "winch_happened w3 = winch_happened ws"
        "pselect_q w3 = pselect_q ws" "trace w3 = trace ws @ n3" "resizes n3 = 0" by auto
      have r3: "\<exists>rs. read_q ws = rs @ read_q w3 \<and> list_all (\<lambda>x. \<not> read_failed x) rs"
      proof (cases a)
        case True
        with l Go have "proxy_local pty ws = Some (Go w3)" by simp
        from proxy_local_go_read[OF this] obtain x where
          "read_q ws = x # read_q w3" "\<not> read_failed x" by blast
        then show ?thesis by (intro exI[of _ "[x]"]) simp
      next
        case False
        with l Go show ?thesis by (intro exI[of _ "[]"]) simp
      qed
      then obtain rs3 where rs3: "read_q ws = rs3 @ read_q w3"
        "list_all (\<lambda>x. \<not> read_failed x) rs3" by blast
      from "1.prems" top sel Psel_ready l Go obtain s2 where
        t: "(if b then proxy_target pty w3 else Some (Go w3)) = Some s2"
        by (subst (asm) proxy_loop.simps) (auto split: option.splits)
      have tfx: "\<And>wl cl. s2 = Go wl \<or> s2 = Stop cl wl \<Longrightarrow>
          winch_happened wl = winch_happened ws \<and> pselect_q wl = pselect_q ws
          \<and> (\<exists>new. trace wl = trace ws @ new \<and> resizes new = 0)"
      proof -
        fix wl cl assume s: "s2 = Go wl \<or> s2 = Stop cl wl"
        show "winch_happened wl = winch_happened ws \<and> pselect_q wl = pselect_q ws
          \<and> (\<exists>new. trace wl = trace ws @ new \<and> resizes new = 0)"
        proof (cases b)
          case True
          with t have "proxy_target pty w3 = Some s2" by simp
          from proxy_target_effect[OF this s] obtain n4 where
            "winch_happened wl = winch_happened w3" "pselect_q wl = pselect_q w3"
            "trace wl = trace w3 @ n4" "resizes n4 = 0" by blast
          with l3 show ?thesis by (intro conjI exI[of _ "n3 @ n4"]) simp_all
        next
          case False
          with t s have "wl = w3" by auto
          with l3 show ?thesis by (intro conjI exI[of _ n3]) simp_all
        qed
      qed
      show ?thesis
      proof (cases s2)
        case (Stop c2 w4)
        have e: "w' = w4" and cc: "c = c2"
          using "1.prems" top sel Psel_ready l \<open>s1 = Go w3\<close> t Stop
          by (subst (asm) proxy_loop.simps; simp)+
        have bl: "b" "proxy_target pty w3 = Some (Stop c2 w4)"
          using t Stop by (auto split: if_splits)
        from tfx[of w4 c2] Stop obtain nx where nx: "pselect_q w4 = pselect_q ws"
          "trace w4 = trace ws @ nx" "resizes nx = 0" "winch_happened w4 = winch_happened ws"
          by blast
        from proxy_target_stop_read[OF bl(2)] obtain x where
          x: "read_q w3 = x # read_q w4"
             "(\<exists>e. x = Rd_err e \<and> c2 = Target_read (- 1)) \<or> (x = Rd_data [] \<and> c2 = Target_read 0)"
          by blast
        have rr: "read_q ws = rs3 @ [x] @ read_q w4" using rs3 x by simp
        have ee: "?E r [x]" using Psel_ready bl(1) cc x(2) by auto
        show ?thesis by (rule fin[OF nx rr rs3(2) ee e])
      next
        case (Go w4)
        have rec: "proxy_loop pty w4 = Some (c, w')"
          using "1.prems" top sel Psel_ready l \<open>s1 = Go w3\<close> t Go
          by (subst (asm) proxy_loop.simps) simp
        from tfx[of w4] Go obtain n4 where l4: "winch_happened w4 = winch_happened ws"
          "pselect_q w4 = pselect_q ws" "trace w4 = trace ws @ n4" "resizes n4 = 0" by auto
        have r4: "\<exists>rs. read_q ws = rs @ read_q w4 \<and> list_all (\<lambda>x. \<not> read_failed x) rs"
        proof (cases b)
          case True
          with t Go have "proxy_target pty w3 = Some (Go w4)" by simp
          from proxy_target_go_read[OF this] obtain x where
            "read_q w3 = x # read_q w4" "\<not> read_failed x" by blast
          with rs3 show ?thesis by (intro exI[of _ "rs3 @ [x]"]) simp
        next
          case False
          with t Go rs3 show ?thesis by (intro exI[of _ rs3]) simp
        qed
        then obtain rs4 where rs4: "read_q ws = rs4 @ read_q w4"
          "list_all (\<lambda>x. \<not> read_failed x) rs4" by blast
        show ?thesis
          by (rule cont[OF l4(2,3,4,1) rs4 nf
                "1.IH"(2)[OF top sel refl Psel_ready l \<open>s1 = Go w3\<close> t Go rec]])
      qed
    qed
  qed
qed

section \<open>How the relay loop ends\<close>

lemma proxy_local_stop:
  "proxy_local pty w = Some (Stop c w') \<Longrightarrow>
   \<exists>e q. read_q w = Rd_err e # q \<and> c = Local_read (- 1)"
  by (auto simp: proxy_local_def sys_read_def
           split: option.splits if_splits prod.splits list.splits rd.splits)

lemma proxy_target_stop:
  "proxy_target pty w = Some (Stop c w') \<Longrightarrow>
   \<exists>r q. read_q w = r # q
     \<and> ((\<exists>e. r = Rd_err e) \<and> c = Target_read (- 1) \<or> r = Rd_data [] \<and> c = Target_read 0)"
  by (auto simp: proxy_target_def sys_read_def min_def
           split: option.splits if_splits prod.splits list.splits rd.splits)

lemma proxy_loop_eintr:
  assumes "(if winch_happened w \<noteq> 0 then resize_pty pty (w\<lparr>winch_happened := 0\<rparr>) else Some w) = Some wt"
    and "sys_pselect wt = Some (Psel_err EINTR, wi)"
  shows "proxy_loop pty w = proxy_loop pty wi"
  using assms by (subst proxy_loop.simps) simp

lemma proxy_local_go:
  "sys_read 0 4096 w = Some (count, buf, wr) \<Longrightarrow> 0 \<le> count \<Longrightarrow>
   writeall pty buf count wr = Some (rv, ww) \<Longrightarrow> proxy_local pty w = Some (Go ww)"
  by (simp add: proxy_local_def)

lemma proxy_target_go:
  "sys_read pty 4096 w = Some (count, buf, wr) \<Longrightarrow> 0 < count \<Longrightarrow>
   writeall 1 buf count wr = Some (rv, ww) \<Longrightarrow> proxy_target pty w = Some (Go ww)"
  by (simp add: proxy_target_def)

text \<open>
  Claim C7. A relay loop that returns has ended at the last \<^verbatim>\<open>pselect\<close> call it made, and
  for one of three reasons: that call failed with an error other than \<^verbatim>\<open>EINTR\<close>; or it
  reported the local side readable and the \<^verbatim>\<open>read\<close> of the local side failed; or it
  reported the target side readable and the \<^verbatim>\<open>read\<close> of the target side failed or
  returned no bytes. That \<^verbatim>\<open>read\<close> is the last one the loop made, no \<^verbatim>\<open>read\<close> before it
  had failed, and no \<^verbatim>\<open>pselect\<close> call before the last had failed with an error other than
  \<^verbatim>\<open>EINTR\<close> (first part; the second and third part say the same of one half of an
  iteration). Whatever \<^verbatim>\<open>writeall\<close> returns, zero or not, the half of the iteration
  that called it goes on (fourth and fifth part), and after an interrupted wait the loop
  starts its next iteration (last part).
\<close>

theorem proxy_loop_ends:
  "(proxy_loop pty w = Some (c, w') \<longrightarrow>
      (\<exists>used sig r rused rlast.
          pselect_q w = used @ (sig, r) # pselect_q w'
        \<and> read_q w = rused @ rlast @ read_q w'
        \<and> list_all (\<lambda>e. \<not> wait_failed (snd e)) used
        \<and> list_all (\<lambda>x. \<not> read_failed x) rused
        \<and> ((\<exists>e. r = Psel_err e \<and> e \<noteq> EINTR \<and> c = Wait_error e \<and> rlast = [])
           \<or> (\<exists>b e. r = Psel_ready True b \<and> c = Local_read (- 1) \<and> rlast = [Rd_err e])
           \<or> (\<exists>a e. r = Psel_ready a True \<and> c = Target_read (- 1) \<and> rlast = [Rd_err e])
           \<or> (\<exists>a. r = Psel_ready a True \<and> c = Target_read 0 \<and> rlast = [Rd_data []]))))
   \<and> (proxy_local pty w = Some (Stop c w') \<longrightarrow>
      (\<exists>e q. read_q w = Rd_err e # q \<and> c = Local_read (- 1)))
   \<and> (proxy_target pty w = Some (Stop c w') \<longrightarrow>
      (\<exists>r q. read_q w = r # q
         \<and> ((\<exists>e. r = Rd_err e) \<and> c = Target_read (- 1)
            \<or> r = Rd_data [] \<and> c = Target_read 0)))
   \<and> (sys_read 0 4096 w = Some (count, buf, wr) \<and> 0 \<le> count
        \<and> writeall pty buf count wr = Some (rv, ww) \<longrightarrow>
      proxy_local pty w = Some (Go ww))
   \<and> (sys_read pty 4096 w = Some (count, buf, wr) \<and> 0 < count
        \<and> writeall 1 buf count wr = Some (rv, ww) \<longrightarrow>
      proxy_target pty w = Some (Go ww))
   \<and> ((if winch_happened w \<noteq> 0 then resize_pty pty (w\<lparr>winch_happened := 0\<rparr>) else Some w)
          = Some wt
        \<and> sys_pselect wt = Some (Psel_err EINTR, wi) \<longrightarrow>
      proxy_loop pty w = proxy_loop pty wi)"
proof (intro conjI impI)
  assume "proxy_loop pty w = Some (c, w')"
  from proxy_loop_run[OF this] obtain used sig r rused rlast where
    "pselect_q w = used @ (sig, r) # pselect_q w'"
    "read_q w = rused @ rlast @ read_q w'"
    "list_all (\<lambda>e. \<not> wait_failed (snd e)) used"
    "list_all (\<lambda>x. \<not> read_failed x) rused"
    "(\<exists>e. r = Psel_err e \<and> e \<noteq> EINTR \<and> c = Wait_error e \<and> rlast = [])
       \<or> (\<exists>b e. r = Psel_ready True b \<and> c = Local_read (- 1) \<and> rlast = [Rd_err e])
       \<or> (\<exists>a e. r = Psel_ready a True \<and> c = Target_read (- 1) \<and> rlast = [Rd_err e])
       \<or> (\<exists>a. r = Psel_ready a True \<and> c = Target_read 0 \<and> rlast = [Rd_data []])"
    by blast
  then show "\<exists>used sig r rused rlast.
          pselect_q w = used @ (sig, r) # pselect_q w'
        \<and> read_q w = rused @ rlast @ read_q w'
        \<and> list_all (\<lambda>e. \<not> wait_failed (snd e)) used
        \<and> list_all (\<lambda>x. \<not> read_failed x) rused
        \<and> ((\<exists>e. r = Psel_err e \<and> e \<noteq> EINTR \<and> c = Wait_error e \<and> rlast = [])
           \<or> (\<exists>b e. r = Psel_ready True b \<and> c = Local_read (- 1) \<and> rlast = [Rd_err e])
           \<or> (\<exists>a e. r = Psel_ready a True \<and> c = Target_read (- 1) \<and> rlast = [Rd_err e])
           \<or> (\<exists>a. r = Psel_ready a True \<and> c = Target_read 0 \<and> rlast = [Rd_data []]))"
    by blast
next
  assume "proxy_local pty w = Some (Stop c w')"
  then show "\<exists>e q. read_q w = Rd_err e # q \<and> c = Local_read (- 1)"
    by (rule proxy_local_stop)
next
  assume "proxy_target pty w = Some (Stop c w')"
  then show "\<exists>r q. read_q w = r # q
         \<and> ((\<exists>e. r = Rd_err e) \<and> c = Target_read (- 1)
            \<or> r = Rd_data [] \<and> c = Target_read 0)"
    by (rule proxy_target_stop)
next
  assume "sys_read 0 4096 w = Some (count, buf, wr) \<and> 0 \<le> count
        \<and> writeall pty buf count wr = Some (rv, ww)"
  then show "proxy_local pty w = Some (Go ww)"
    by (simp add: proxy_local_go)
next
  assume "sys_read pty 4096 w = Some (count, buf, wr) \<and> 0 < count
        \<and> writeall 1 buf count wr = Some (rv, ww)"
  then show "proxy_target pty w = Some (Go ww)"
    by (simp add: proxy_target_go)
next
  assume "(if winch_happened w \<noteq> 0 then resize_pty pty (w\<lparr>winch_happened := 0\<rparr>) else Some w)
          = Some wt
        \<and> sys_pselect wt = Some (Psel_err EINTR, wi)"
  then show "proxy_loop pty w = proxy_loop pty wi"
    by (simp add: proxy_loop_eintr)
qed

theorem proxy_loop_ends_witness:
  "proxy_loop 5
     (world0\<lparr>pselect_q := [(False, Psel_err 4), (False, Psel_ready True False),
                           (False, Psel_ready False True)],
             read_q := [Rd_data ''ab'', Rd_data []], write_q := [Wr_err 5]\<rparr>)
     = Some (Target_read 0, world0)
   \<and> (\<exists>used sig r rused rlast.
         [(False, Psel_err 4), (False, Psel_ready True False), (False, Psel_ready False True)]
           = used @ [(sig, r)]
       \<and> [Rd_data ''ab'', Rd_data []] = rused @ rlast
       \<and> list_all (\<lambda>e. \<not> wait_failed (snd e)) used
       \<and> list_all (\<lambda>x. \<not> read_failed x) rused
       \<and> (\<exists>a. r = Psel_ready a True \<and> rlast = [Rd_data []]))
   \<and> proxy_loop 5
     (world0\<lparr>pselect_q := [(False, Psel_err 4), (False, Psel_err 5)]\<rparr>)
     = proxy_loop 5 (world0\<lparr>pselect_q := [(False, Psel_err 5)]\<rparr>)
   \<and> proxy_local 5 (world0\<lparr>read_q := [Rd_err 5]\<rparr>) = Some (Stop (Local_read (- 1)) world0)
   \<and> proxy_target 5 (world0\<lparr>read_q := [Rd_data []]\<rparr>) = Some (Stop (Target_read 0) world0)
   \<and> proxy_local 5 (world0\<lparr>read_q := [Rd_data ''ab''], write_q := [Wr_err 5]\<rparr>)
     = Some (Go world0)
   \<and> proxy_target 5 (world0\<lparr>read_q := [Rd_data ''ab''], write_q := [Wr_err 5]\<rparr>)
     = Some (Go world0)"
proof -
  let ?w = "world0\<lparr>pselect_q := [(False, Psel_err 4), (False, Psel_ready True False),
                           (False, Psel_ready False True)],
             read_q := [Rd_data ''ab'', Rd_data []], write_q := [Wr_err 5]\<rparr>"
  have a0: "proxy_loop 5 ?w = Some (Target_read 0, world0)"
    by (simp add: proxy_eval)
  have q: "pselect_q ?w = [(False, Psel_err 4), (False, Psel_ready True False),
                           (False, Psel_ready False True)]"
      "read_q ?w = [Rd_data ''ab'', Rd_data []]" "pselect_q world0 = []" "read_q world0 = []"
    by (simp_all add: world0_def)
  have a: "\<exists>used sig r rused rlast.
         [(False, Psel_err 4), (False, Psel_ready True False), (False, Psel_ready False True)]
           = used @ [(sig, r)]
       \<and> [Rd_data ''ab'', Rd_data []] = rused @ rlast
       \<and> list_all (\<lambda>e. \<not> wait_failed (snd e)) used
       \<and> list_all (\<lambda>x. \<not> read_failed x) rused
       \<and> (\<exists>a. r = Psel_ready a True \<and> rlast = [Rd_data []])"
    using proxy_loop_ends[where pty = 5 and w = ?w and c = "Target_read 0" and w' = world0,
        THEN conjunct1, rule_format, OF a0]
    unfolding q by simp
  have b: "proxy_loop 5 (world0\<lparr>pselect_q := [(False, Psel_err 4), (False, Psel_err 5)]\<rparr>)
     = proxy_loop 5 (world0\<lparr>pselect_q := [(False, Psel_err 5)]\<rparr>)"
    using proxy_loop_ends[where pty = 5
        and w = "world0\<lparr>pselect_q := [(False, Psel_err 4), (False, Psel_err 5)]\<rparr>"
        and wt = "world0\<lparr>pselect_q := [(False, Psel_err 4), (False, Psel_err 5)]\<rparr>"
        and wi = "world0\<lparr>pselect_q := [(False, Psel_err 5)]\<rparr>"]
    by (simp add: sys_pselect_def world0_def EINTR_def)
  have c0: "proxy_local 5 (world0\<lparr>read_q := [Rd_err 5]\<rparr>) = Some (Stop (Local_read (- 1)) world0)"
    by (simp add: proxy_eval)
  have c: "\<exists>e q. read_q (world0\<lparr>read_q := [Rd_err 5]\<rparr>) = Rd_err e # q
             \<and> Local_read (- 1) = Local_read (- 1)"
    using c0 proxy_loop_ends[where pty = 5 and w = "world0\<lparr>read_q := [Rd_err 5]\<rparr>"
        and c = "Local_read (- 1)" and w' = world0]
    by simp
  have d0: "proxy_target 5 (world0\<lparr>read_q := [Rd_data []]\<rparr>) = Some (Stop (Target_read 0) world0)"
    by (simp add: proxy_eval)
  have d: "\<exists>r q. read_q (world0\<lparr>read_q := [Rd_data []]\<rparr>) = r # q
         \<and> ((\<exists>e. r = Rd_err e) \<and> Target_read 0 = Target_read (- 1)
            \<or> r = Rd_data [] \<and> Target_read 0 = Target_read 0)"
    using d0 proxy_loop_ends[where pty = 5 and w = "world0\<lparr>read_q := [Rd_data []]\<rparr>"
        and c = "Target_read 0" and w' = world0]
    by simp
  have e: "proxy_local 5 (world0\<lparr>read_q := [Rd_data ''ab''], write_q := [Wr_err 5]\<rparr>)
     = Some (Go world0)"
    using proxy_loop_ends[where pty = 5
        and w = "world0\<lparr>read_q := [Rd_data ''ab''], write_q := [Wr_err 5]\<rparr>"
        and count = 2 and buf = "''ab''" and wr = "world0\<lparr>write_q := [Wr_err 5]\<rparr>"
        and rv = "- 1" and ww = world0]
    by (simp add: proxy_eval)
  have f: "proxy_target 5 (world0\<lparr>read_q := [Rd_data ''ab''], write_q := [Wr_err 5]\<rparr>)
     = Some (Go world0)"
    using proxy_loop_ends[where pty = 5
        and w = "world0\<lparr>read_q := [Rd_data ''ab''], write_q := [Wr_err 5]\<rparr>"
        and count = 2 and buf = "''ab''" and wr = "world0\<lparr>write_q := [Wr_err 5]\<rparr>"
        and rv = "- 1" and ww = world0]
    by (simp add: proxy_eval)
  from a0 a b c0 d0 e f show ?thesis by simp
qed

text \<open>
  Claim C2 at a concrete run. The local side reads end of file (a \<^verbatim>\<open>read\<close> of 0
  bytes): the local half of the iteration goes on, where the target half stops on the
  same result, and the loop relays what the target sends afterwards; it ends only at
  the wait error that follows.
\<close>

theorem local_eof_goes_on:
  "proxy_local 5 (world0\<lparr>read_q := [Rd_data []]\<rparr>) = Some (Go world0)
   \<and> proxy_target 5 (world0\<lparr>read_q := [Rd_data []]\<rparr>) = Some (Stop (Target_read 0) world0)
   \<and> proxy_loop 5
       (world0\<lparr>pselect_q := [(False, Psel_ready True False), (False, Psel_ready False True),
                             (False, Psel_err 5)],
               read_q := [Rd_data [], Rd_data ''late''], write_q := [Wr_ok 4]\<rparr>)
     = Some (Wait_error 5,
             world0\<lparr>trace := [Write 1 ''late'', Fprintf 2 ''select: %m'' []]\<rparr>)"
  by (simp add: proxy_eval)

section \<open>The option loop\<close>

text \<open>
  \<^verbatim>\<open>getopt\<close> reorders \<^verbatim>\<open>argv\<close> but keeps its length, so \<^verbatim>\<open>argc\<close> is the length of
  either.
\<close>

lemmas main_eval =
  main_def parse_options.simps getopt_def getopt_next_def getopt_permute_def
  getopt_dashdash_def exchange_def nonoption_p_def getopt_init_def Let_def
  allocate_pty_def parse_pid_def strtol10_def
  isspace_def isdigit_def digits_value_def attach_def create_def child_steps_def usage_def
  LONG_MAX_def LONG_MIN_def ERANGE_def EPERM_def

lemma getopt_next_length:
  assumes "getopt_next E argv d = (fin, a, e)"
  shows "length a = length argv"
proof -
  define d1 where "d1 = d\<lparr>g_last_nonopt := min (g_last_nonopt d) (g_optind d),
                 g_first_nonopt := min (g_first_nonopt d) (g_optind d)\<rparr>"
  obtain a2 d2 where p: "(if posixly_correct E then (argv, d1) else getopt_permute argv d1) = (a2, d2)"
    by (metis surj_pair)
  obtain a3 d3 where q: "getopt_dashdash a2 d2 = (a3, d3)" by (metis surj_pair)
  have k2: "length a2 = length argv"
    using p by (auto split: if_splits dest: getopt_permute_keeps)
  from getopt_dashdash_keeps[OF q] have k3: "length a3 = length a2" by simp
  have "a = a3"
    using assms getopt_next_unfold[OF p q d1_def] by (auto split: if_splits)
  with k2 k3 show ?thesis by simp
qed

lemma getopt_length:
  assumes "getopt E argv os d w = (r, argv', d', w')"
  shows "length argv' = length argv"
proof (cases "argv = [] \<or> g_nextchar d \<noteq> []")
  case True
  with assms show ?thesis
    by (auto simp: getopt_def Let_def split: if_splits prod.splits)
next
  case False
  obtain fin a e where n: "getopt_next E argv d = (fin, a, e)" by (metis prod_cases3)
  from assms False n have "argv' = a"
    by (auto simp: getopt_def Let_def split: if_splits)
  with getopt_next_length[OF n] show ?thesis by simp
qed

lemma parse_options_length:
  "parse_options E argv opts d w = Ret (opts', optind, argv') w' \<Longrightarrow> length argv' = length argv"
proof (induction E argv opts d w rule: parse_options.induct)
  case (1 E argv opts d w)
  obtain r a e v where g: "getopt E argv ''hlLsTvV'' d w = (r, a, e, v)"
    by (metis prod_cases4)
  note f = getopt_length[OF g]
  show ?case
  proof (cases r)
    case None
    have "parse_options E argv opts d w = Ret (opts, g_optind e, a) v"
      using g None by (subst parse_options.simps) simp
    with "1.prems" f show ?thesis by auto
  next
    case (Some opt)
    consider (s) "opt = CHR ''s''" | (T) "opt = CHR ''T''" | (V) "opt = CHR ''V''"
      | (other) "opt \<noteq> CHR ''s''" "opt \<noteq> CHR ''T''" "opt \<noteq> CHR ''V''" by blast
    then show ?thesis
    proof cases
      case s
      have n: "opt \<noteq> CHR ''h''" "opt \<noteq> CHR ''l''" "opt \<noteq> CHR ''L''" using s by simp_all
      have "parse_options E argv opts d w = parse_options E a (opts\<lparr>force_stdio := 1\<rparr>) e v"
        using g Some s by (subst parse_options.simps) simp
      with "1.prems" have "parse_options E a (opts\<lparr>force_stdio := 1\<rparr>) e v
          = Ret (opts', optind, argv') w'" by simp
      from "1.IH"(1)[OF g[symmetric] Some refl refl n s this] f show ?thesis by simp
    next
      case T
      have n: "opt \<noteq> CHR ''h''" "opt \<noteq> CHR ''l''" "opt \<noteq> CHR ''L''" "opt \<noteq> CHR ''s''"
        using T by simp_all
      have "parse_options E argv opts d w = parse_options E a (opts\<lparr>do_steal := 1\<rparr>) e v"
        using g Some T by (subst parse_options.simps) simp
      with "1.prems" have "parse_options E a (opts\<lparr>do_steal := 1\<rparr>) e v
          = Ret (opts', optind, argv') w'" by simp
      from "1.IH"(2)[OF g[symmetric] Some refl refl n T this] f show ?thesis by simp
    next
      case V
      have n: "opt \<noteq> CHR ''h''" "opt \<noteq> CHR ''l''" "opt \<noteq> CHR ''L''" "opt \<noteq> CHR ''s''"
        "opt \<noteq> CHR ''T''" "opt \<noteq> CHR ''v''"
        using V by simp_all
      have "parse_options E argv opts d w = parse_options E a opts e (v\<lparr>verbose := 1\<rparr>)"
        using g Some V by (subst parse_options.simps) simp
      with "1.prems" have "parse_options E a opts e (v\<lparr>verbose := 1\<rparr>)
          = Ret (opts', optind, argv') w'" by simp
      from "1.IH"(3)[OF g[symmetric] Some refl refl n V this] f show ?thesis by simp
    next
      case other
      have "parse_options E argv opts d w =
          (if opt = CHR ''h'' then Exit 0 (emit (usage (hd a)) v)
           else if opt = CHR ''l'' then Ret (opts\<lparr>do_attach := 0\<rparr>, g_optind e, a) v
           else if opt = CHR ''L'' then
             Ret (opts\<lparr>do_attach := 0, unattached_script_redirection := 1\<rparr>, g_optind e, a) v
           else if opt = CHR ''v'' then
             Exit 0 (emit [Fprintf 1 ''This is reptyr version %s.\<newline>'' [PStr (reptyr_version E)],
                           Fprintf 1 '' by Nelson Elhage <nelhage@nelhage.com>\<newline>'' [],
                           Fprintf 1 ''http://github.com/nelhage/reptyr/\<newline>'' []] v)
           else Exit 1 (emit (usage (hd a)) v))"
        using g Some other by (subst parse_options.simps) simp
      with "1.prems" f show ?thesis by (auto split: if_splits)
    qed
  qed
qed

text \<open>
  The option loop on sample command lines. An option after the first operand is still
  parsed, and \<^verbatim>\<open>argv\<close> is reordered when \<^verbatim>\<open>getopt\<close> is called again after it; \<^verbatim>\<open>-l\<close>
  leaves the loop before that call, so \<^verbatim>\<open>argv\<close> stays as it was and \<^verbatim>\<open>optind\<close> is past the
  option. With \<^verbatim>\<open>POSIXLY_CORRECT\<close> set the scan stops at the first operand. \<^verbatim>\<open>--\<close> ends the
  options, and an unknown option ends the process after the library's message and the
  usage text.
\<close>

lemma parse_options_operand_first:
  "parse_options sample_env [''reptyr'', ''12x'', ''-T'']
     \<lparr>do_attach = 1, force_stdio = 0, do_steal = 0, unattached_script_redirection = 0\<rparr>
     getopt_init world0
   = Ret (\<lparr>do_attach = 1, force_stdio = 0, do_steal = 1, unattached_script_redirection = 0\<rparr>,
          2, [''reptyr'', ''-T'', ''12x'']) world0"
  "parse_options sample_env [''reptyr'', ''12x'', ''-l'']
     \<lparr>do_attach = 1, force_stdio = 0, do_steal = 0, unattached_script_redirection = 0\<rparr>
     getopt_init world0
   = Ret (\<lparr>do_attach = 0, force_stdio = 0, do_steal = 0, unattached_script_redirection = 0\<rparr>,
          3, [''reptyr'', ''12x'', ''-l'']) world0"
  "parse_options (sample_env\<lparr>posixly_correct := True\<rparr>) [''reptyr'', ''12x'', ''-T'']
     \<lparr>do_attach = 1, force_stdio = 0, do_steal = 0, unattached_script_redirection = 0\<rparr>
     getopt_init world0
   = Ret (\<lparr>do_attach = 1, force_stdio = 0, do_steal = 0, unattached_script_redirection = 0\<rparr>,
          1, [''reptyr'', ''12x'', ''-T'']) world0"
  "parse_options sample_env [''reptyr'', ''-sV'', ''a'', ''--'', ''-T'']
     \<lparr>do_attach = 1, force_stdio = 0, do_steal = 0, unattached_script_redirection = 0\<rparr>
     getopt_init world0
   = Ret (\<lparr>do_attach = 1, force_stdio = 1, do_steal = 0, unattached_script_redirection = 0\<rparr>,
          3, [''reptyr'', ''-sV'', ''--'', ''a'', ''-T'']) (world0\<lparr>verbose := 1\<rparr>)"
  "parse_options sample_env [''reptyr'', ''-x'']
     \<lparr>do_attach = 1, force_stdio = 0, do_steal = 0, unattached_script_redirection = 0\<rparr>
     getopt_init world0
   = Exit 1 (emit (Fprintf 2 (''%s: invalid option -- '' @ [CHR 0x27] @ ''%c'' @ [CHR 0x27] @ ''\<newline>'')
                     [PStr ''reptyr'', PChar CHR ''x'']
                   # usage ''reptyr'') world0)"
  by (simp_all add: main_eval sample_env_def emit_def)

section \<open>The pid argument\<close>

lemma foldl_digits_nonneg:
  "list_all isdigit ds \<Longrightarrow> 0 \<le> acc \<Longrightarrow>
   0 \<le> foldl (\<lambda>acc c. 10 * acc + (int (of_char c) - 48)) acc ds"
  by (induction ds arbitrary: acc) (auto simp: isdigit_def)

lemma digits_value_nonneg: "list_all isdigit ds \<Longrightarrow> 0 \<le> digits_value ds"
  by (simp add: digits_value_def foldl_digits_nonneg)

lemma takeWhile_isdigit: "list_all isdigit (takeWhile isdigit s)"
  by (induction s) auto

lemma pid_cast_keeps: "sint (word_of_int t :: 32 word) < t \<or> t \<le> 2 ^ 31 - 1"
proof -
  have "sint (word_of_int t :: 32 word) < 2 ^ 31"
    using sint_lt[of "word_of_int t :: 32 word"] by simp
  then show ?thesis by linarith
qed

lemma parse_pid_rejects:
  assumes "\<not> pid_text s"
  shows "\<exists>msg ap. parse_pid s w = Exit 1 (emit (x_debug (Some ''[!] '') msg ap) w)"
proof -
  define s1 where "s1 = dropWhile isspace s"
  define neg where "neg = (s1 \<noteq> [] \<and> hd s1 = CHR ''-'')"
  define s2 where "s2 = (if s1 \<noteq> [] \<and> (hd s1 = CHR ''-'' \<or> hd s1 = CHR ''+'') then tl s1 else s1)"
  define ds where "ds = takeWhile isdigit s2"
  define v where "v = (if neg then - digits_value ds else digits_value ds)"
  have st: "strtol10 s =
     (if ds = [] then (0, s, 0)
      else if v > LONG_MAX then (LONG_MAX, dropWhile isdigit s2, ERANGE)
      else if v < LONG_MIN then (LONG_MIN, dropWhile isdigit s2, ERANGE)
      else (v, dropWhile isdigit s2, 0))"
    by (simp add: strtol10_def Let_def s1_def neg_def s2_def ds_def v_def)
  have dsd: "list_all isdigit ds" by (simp add: ds_def takeWhile_isdigit)
  show ?thesis
  proof (cases "\<exists>msg ap. parse_pid s w = Exit 1 (emit (x_debug (Some ''[!] '') msg ap) w)")
    case True
    then show ?thesis .
  next
    case False
    then have nd: "\<And>msg ap. parse_pid s w \<noteq> die msg ap w"
      by (auto simp: die_def)
    have ne: "ds \<noteq> []"
    proof
      assume "ds = []"
      with st have "strtol10 s = (0, s, 0)" by simp
      then have "parse_pid s w = (if s \<noteq> [] then die ''Invalid pid: must be integer'' [] w
                    else die ''Invalid pid: %s'' [PStrerror ERANGE] w)"
        by (simp add: parse_pid_def ERANGE_def)
      with nd show False by (auto split: if_splits)
    qed
    have rng: "\<not> v > LONG_MAX" "\<not> v < LONG_MIN"
      using nd[of "''Invalid pid: %m''" "[]"] st ne
      by (auto simp: parse_pid_def split: if_splits)
    with st ne have st': "strtol10 s = (v, dropWhile isdigit s2, 0)" by simp
    have rest: "dropWhile isdigit s2 = []"
      using nd[of "''Invalid pid: must be integer''" "[]"] st'
      by (auto simp: parse_pid_def ERANGE_def split: if_splits)
    have ok: "\<not> (sint (word_of_int v :: 32 word) < v \<or> v < 1)"
      using nd[of "''Invalid pid: %s''" "[PStrerror ERANGE]"] st' rest
      by (auto simp: parse_pid_def ERANGE_def Let_def split: if_splits)
    have all: "list_all isdigit s2"
      using rest by (simp add: dropWhile_eq_Nil_conv list_all_iff)
    then have ds2: "ds = s2" by (simp add: ds_def list_all_iff)
    have notneg: "\<not> neg"
    proof
      assume neg
      then have "v = - digits_value ds" by (simp add: v_def)
      with digits_value_nonneg[OF dsd] ok show False by simp
    qed
    then have v: "v = digits_value s2" by (simp add: v_def ds2)
    have s2': "s2 = (if s1 \<noteq> [] \<and> hd s1 = CHR ''+'' then tl s1 else s1)"
      using notneg by (auto simp: s2_def neg_def)
    have "v \<le> 2 ^ 31 - 1" using ok pid_cast_keeps[of v] by auto
    with ok v all ne ds2 s2' have "pid_text s"
      by (simp add: pid_text_def Let_def s1_def[symmetric])
    with assms show ?thesis by simp
  qed
qed

lemma allocate_pty_exit: "allocate_pty E w = Exit st w' \<Longrightarrow> st = 1"
  by (auto simp: allocate_pty_def Let_def die_def split: if_splits)

lemma allocate_pty_trace:
  "allocate_pty E w = Ret pty w' \<Longrightarrow> w' = emit [Get_pt, Unlockpt pty, Grantpt pty] w"
  by (auto simp: allocate_pty_def Let_def die_def emit_def split: if_splits)

text \<open>
  Claim C3, as amended. When the option loop ends in attach mode and the pid argument
  (the argument at \<^verbatim>\<open>optind\<close>, in \<^verbatim>\<open>argv\<close> as the option loop has left it) is not of the
  accepted form (so: it has other non-numeric content, or characters after the digits,
  or no digits, or a value outside \<^verbatim>\<open>long\<close> or \<^verbatim>\<open>pid_t\<close>, or a value below 1), the process
  ends with status 1. Without \<^verbatim>\<open>-T\<close> this happens after the pseudo-terminal has been
  allocated, unlocked and granted: the rejection message follows those three calls. With
  \<^verbatim>\<open>-T\<close> nothing has been allocated.
\<close>

theorem bad_pid_rejected:
  assumes "parse_options E argv
             \<lparr>do_attach = 1, force_stdio = 0, do_steal = 0, unattached_script_redirection = 0\<rparr>
             getopt_init w = Ret (opts, optind, argv') wo"
    and "do_attach opts \<noteq> 0" and "optind < length argv"
    and "\<not> pid_text (argv' ! optind)"
  shows "(\<exists>wend. main E argv w = Some (1, wend))
    \<and> (do_steal opts = 0 \<and> allocate_pty E wo = Ret pty wa \<longrightarrow>
         (\<exists>msg ap. main E argv w
            = Some (1, emit ([Get_pt, Unlockpt pty, Grantpt pty] @ x_debug (Some ''[!] '') msg ap) wo)))
    \<and> (do_steal opts \<noteq> 0 \<longrightarrow>
         (\<exists>msg ap. main E argv w = Some (1, emit (x_debug (Some ''[!] '') msg ap) wo)))"
proof -
  have rej: "\<And>w. \<exists>msg ap. parse_pid (argv' ! optind) w = Exit 1 (emit (x_debug (Some ''[!] '') msg ap) w)"
    using assms(4) by (rule parse_pid_rejects)
  show ?thesis
  proof (cases "do_steal opts = 0")
    case False
    from rej[of wo] obtain msg ap where
      "parse_pid (argv' ! optind) wo = Exit 1 (emit (x_debug (Some ''[!] '') msg ap) wo)" by blast
    with assms False show ?thesis by (auto simp: main_def)
  next
    case True
    show ?thesis
    proof (cases "allocate_pty E wo")
      case (Exit st w1)
      then have "st = 1" by (rule allocate_pty_exit)
      with assms True Exit show ?thesis by (auto simp: main_def)
    next
      case (Ret p w1)
      then have w1: "w1 = emit [Get_pt, Unlockpt p, Grantpt p] wo" by (rule allocate_pty_trace)
      from rej[of w1] obtain msg ap where
        "parse_pid (argv' ! optind) w1 = Exit 1 (emit (x_debug (Some ''[!] '') msg ap) w1)" by blast
      with assms True Ret w1 have
        m: "main E argv w
              = Some (1, emit ([Get_pt, Unlockpt p, Grantpt p] @ x_debug (Some ''[!] '') msg ap) wo)"
        by (simp add: main_def emit_def)
      have "\<exists>msg ap. main E argv w
              = Some (1, emit ([Get_pt, Unlockpt p, Grantpt p] @ x_debug (Some ''[!] '') msg ap) wo)"
        unfolding m by blast
      with m True Ret show ?thesis by auto
    qed
  qed
qed

theorem bad_pid_rejected_witness:
  "\<not> pid_text ''12x''
   \<and> (\<exists>wend. main sample_env [''reptyr'', ''12x''] world0 = Some (1, wend))
   \<and> (\<exists>msg ap. main sample_env [''reptyr'', ''12x''] world0
         = Some (1, emit ([Get_pt, Unlockpt 5, Grantpt 5] @ x_debug (Some ''[!] '') msg ap) world0))
   \<and> \<not> pid_text ''4294967297''
   \<and> (\<exists>msg ap. main sample_env [''reptyr'', ''-T'', ''4294967297''] world0
         = Some (1, emit (x_debug (Some ''[!] '') msg ap) world0))
   \<and> (\<exists>msg ap. main sample_env [''reptyr'', ''12x'', ''-T''] world0
         = Some (1, emit (x_debug (Some ''[!] '') msg ap) world0))"
proof -
  let ?o = "\<lparr>do_attach = 1, force_stdio = 0, do_steal = 0, unattached_script_redirection = 0\<rparr>"
  have a1: "parse_options sample_env [''reptyr'', ''12x''] ?o getopt_init world0
              = Ret (?o, 1, [''reptyr'', ''12x'']) world0"
    by (simp add: main_eval sample_env_def)
  have a2: "do_attach ?o \<noteq> 0" by simp
  have a3: "(1::nat) < length [''reptyr'', ''12x'']" by simp
  have a4: "\<not> pid_text ([''reptyr'', ''12x''] ! 1)"
    by (simp add: pid_text_def isspace_def isdigit_def)
  have a5: "do_steal ?o = 0
      \<and> allocate_pty sample_env world0 = Ret 5 (emit [Get_pt, Unlockpt 5, Grantpt 5] world0)"
    by (simp add: allocate_pty_def sample_env_def emit_def)
  note a = bad_pid_rejected[OF a1 a2 a3 a4, of 5 "emit [Get_pt, Unlockpt 5, Grantpt 5] world0"]
  let ?t = "\<lparr>do_attach = 1, force_stdio = 0, do_steal = 1, unattached_script_redirection = 0\<rparr>"
  have b1: "parse_options sample_env [''reptyr'', ''-T'', ''4294967297''] ?o getopt_init world0
              = Ret (?t, 2, [''reptyr'', ''-T'', ''4294967297'']) world0"
    by (simp add: main_eval sample_env_def)
  have b2: "do_attach ?t \<noteq> 0" by simp
  have b3: "(2::nat) < length [''reptyr'', ''-T'', ''4294967297'']" by simp
  have b4: "\<not> pid_text ([''reptyr'', ''-T'', ''4294967297''] ! 2)"
    by (simp add: pid_text_def isspace_def isdigit_def digits_value_def)
  note b = bad_pid_rejected[OF b1 b2 b3 b4]
  have c1: "parse_options sample_env [''reptyr'', ''12x'', ''-T''] ?o getopt_init world0
              = Ret (?t, 2, [''reptyr'', ''-T'', ''12x'']) world0"
    by (simp add: main_eval sample_env_def)
  have c3: "(2::nat) < length [''reptyr'', ''12x'', ''-T'']" by simp
  have c4: "\<not> pid_text ([''reptyr'', ''-T'', ''12x''] ! 2)"
    by (simp add: pid_text_def isspace_def isdigit_def)
  note c = bad_pid_rejected[OF c1 b2 c3 c4]
  from a a4 a5 b b4 c show ?thesis by simp
qed

text \<open>
  Where C3 without the amendment fails: \<^verbatim>\<open>12x\<close> is rejected only after the three
  allocation calls, and the argument made of a blank, a plus sign and \<^verbatim>\<open>12\<close> is accepted
  as pid 12.
\<close>

theorem bad_pid_counterexample:
  "main sample_env [''reptyr'', ''12x''] world0
     = Some (1, world0\<lparr>trace :=
         [Get_pt, Unlockpt 5, Grantpt 5,
          Fprintf 2 ''%s'' [PStr ''[!] ''], Fprintf 2 ''Invalid pid: must be integer'' [],
          Fprintf 2 ''\<newline>'' []]\<rparr>)
   \<and> parse_pid '' +12'' world0 = Ret 12 world0"
  by (simp add: main_eval session_eval)

section \<open>Create mode\<close>

lemma restore_termios_exit:
  "restore_termios saved w = Some (Exit st w') \<Longrightarrow> st = 1"
proof (induction saved w rule: restore_termios.induct)
  case (1 saved w)
  show ?case
  proof (cases "tcsetattr_q w")
    case Nil
    with "1.prems" show ?thesis by (subst (asm) restore_termios.simps) simp
  next
    case (Cons errno q)
    let ?w1 = "emit [Tcsetattr saved] (w\<lparr>tcsetattr_q := q\<rparr>)"
    show ?thesis
    proof (cases "errno = EINTR")
      case True
      have "restore_termios saved ?w1 = Some (Exit st w')"
        using "1.prems" Cons True by (subst (asm) restore_termios.simps) (simp add: EINTR_def)
      moreover have "\<not> (errno \<noteq> 0 \<and> errno \<noteq> EINTR)" using True by simp
      ultimately show ?thesis using "1.IH"[OF Cons refl _ True] by blast
    next
      case False
      with "1.prems" Cons show ?thesis
        by (subst (asm) restore_termios.simps) (auto simp: die_def Let_def split: if_splits)
    qed
  qed
qed

lemma session_zero:
  assumes "session E pty w = Some (0, wend)"
  shows "\<exists>saved wr c wp. setup_raw E (stack_termios E) w = Ret saved wr
           \<and> do_proxy E pty wr = Some (c, wp)
           \<and> restore_termios saved wp = Some (Ret () wend)"
proof (cases "setup_raw E (stack_termios E) w")
  case (Exit st w1)
  then have "st = 1" by (auto simp: setup_raw_def die_def Let_def split: option.splits if_splits)
  with assms Exit show ?thesis by (simp add: session_def)
next
  case (Ret saved wr)
  with assms obtain c wp where p: "do_proxy E pty wr = Some (c, wp)"
    by (auto simp: session_def split: option.splits)
  with assms Ret obtain r where r: "restore_termios saved wp = Some r"
    by (auto simp: session_def split: option.splits)
  have "r = Ret () wend"
  proof (cases r)
    case (Exit st w3)
    have "st = 1" using r Exit by (auto dest: restore_termios_exit)
    with assms Ret p r Exit show ?thesis by (simp add: session_def)
  next
    case (Ret u w3)
    with assms \<open>setup_raw E (stack_termios E) w = Ret saved wr\<close> p r show ?thesis
      by (simp add: session_def)
  qed
  with Ret p r show ?thesis by blast
qed

text \<open>
  Claim C4, as amended. When the option loop ends in create mode (\<^verbatim>\<open>-l\<close> or \<^verbatim>\<open>-L\<close>, no
  \<^verbatim>\<open>-T\<close>) and the pseudo-terminal is allocated, \<^verbatim>\<open>main\<close> prints the slave's path, forks
  if \<^verbatim>\<open>argc > 2\<close>, and then runs the same raw mode, relay and restore sequence as the
  attach modes, on the new pty. It ends with status 0 only after \<^verbatim>\<open>do_proxy\<close> has
  returned and the restore loop has succeeded.
\<close>

theorem create_mode_relays:
  assumes "parse_options E argv
             \<lparr>do_attach = 1, force_stdio = 0, do_steal = 0, unattached_script_redirection = 0\<rparr>
             getopt_init w = Ret (opts, optind, argv') wo"
    and "do_attach opts = 0" and "do_steal opts = 0"
    and "allocate_pty E wo = Ret pty wa"
  shows "main E argv w = session E pty (create E opts (length argv) argv' pty wa)
    \<and> trace (create E opts (length argv) argv' pty wa)
        = trace wa @ [Fprintf 1 ''Opened a new pty: %s\<newline>'' [PStr (ptsname_r E pty)], Fflush 1]
          @ (if length argv > 2 then [Fork] else [])
    \<and> (main E argv w = Some (0, wend) \<longrightarrow>
         (\<exists>saved wr c wp.
            setup_raw E (stack_termios E) (create E opts (length argv) argv' pty wa) = Ret saved wr
            \<and> do_proxy E pty wr = Some (c, wp)
            \<and> restore_termios saved wp = Some (Ret () wend)))"
proof -
  have m: "main E argv w = session E pty (create E opts (length argv) argv' pty wa)"
    using assms by (simp add: main_def)
  have t: "trace (create E opts (length argv) argv' pty wa)
        = trace wa @ [Fprintf 1 ''Opened a new pty: %s\<newline>'' [PStr (ptsname_r E pty)], Fflush 1]
          @ (if length argv > 2 then [Fork] else [])"
    by (simp add: create_def emit_def Let_def)
  from m t session_zero[of E pty "create E opts (length argv) argv' pty wa" wend]
  show ?thesis by simp
qed

theorem create_mode_relays_witness:
  "main sample_env [''reptyr'', ''-l'']
     (world0\<lparr>gwinsz_q := [None], swinsz_q := [0], pselect_q := [(False, Psel_err 5)],
             tcsetattr_q := [0]\<rparr>)
   = session sample_env 5
       (world0\<lparr>gwinsz_q := [None], swinsz_q := [0], pselect_q := [(False, Psel_err 5)],
               tcsetattr_q := [0],
               trace := [Get_pt, Unlockpt 5, Grantpt 5,
                         Fprintf 1 ''Opened a new pty: %s\<newline>'' [PStr ''/dev/pts/7''],
                         Fflush 1]\<rparr>)
   \<and> (\<exists>saved wr c wp.
        setup_raw sample_env (stack_termios sample_env)
          (world0\<lparr>gwinsz_q := [None], swinsz_q := [0], pselect_q := [(False, Psel_err 5)],
               tcsetattr_q := [0],
               trace := [Get_pt, Unlockpt 5, Grantpt 5,
                         Fprintf 1 ''Opened a new pty: %s\<newline>'' [PStr ''/dev/pts/7''],
                         Fflush 1]\<rparr>) = Ret saved wr
        \<and> do_proxy sample_env 5 wr = Some (c, wp)
        \<and> restore_termios saved wp
            = Some (Ret () (world0\<lparr>trace :=
                 [Get_pt, Unlockpt 5, Grantpt 5,
                  Fprintf 1 ''Opened a new pty: %s\<newline>'' [PStr ''/dev/pts/7''], Fflush 1,
                  Tcsetattr (cfmakeraw_r sample_env cooked), Sigprocmask_block 28,
                  Sigaction 28,
                  Ioctl_swinsz 5 \<lparr>ws_row = 30, ws_col = 80, ws_xpixel = 640, ws_ypixel = 480\<rparr>,
                  Fprintf 2 ''select: %m'' [], Tcsetattr cooked]\<rparr>)))"
proof -
  let ?o = "\<lparr>do_attach = 1, force_stdio = 0, do_steal = 0, unattached_script_redirection = 0\<rparr>"
  let ?c = "\<lparr>do_attach = 0, force_stdio = 0, do_steal = 0, unattached_script_redirection = 0\<rparr>"
  let ?w = "world0\<lparr>gwinsz_q := [None], swinsz_q := [0], pselect_q := [(False, Psel_err 5)],
             tcsetattr_q := [0]\<rparr>"
  let ?wa = "?w\<lparr>trace := [Get_pt, Unlockpt 5, Grantpt 5]\<rparr>"
  let ?wend = "world0\<lparr>trace :=
                 [Get_pt, Unlockpt 5, Grantpt 5,
                  Fprintf 1 ''Opened a new pty: %s\<newline>'' [PStr ''/dev/pts/7''], Fflush 1,
                  Tcsetattr (cfmakeraw_r sample_env cooked), Sigprocmask_block 28,
                  Sigaction 28,
                  Ioctl_swinsz 5 \<lparr>ws_row = 30, ws_col = 80, ws_xpixel = 640, ws_ypixel = 480\<rparr>,
                  Fprintf 2 ''select: %m'' [], Tcsetattr cooked]\<rparr>"
  have h1: "parse_options sample_env [''reptyr'', ''-l''] ?o getopt_init ?w
              = Ret (?c, 2, [''reptyr'', ''-l'']) ?w"
    by (simp add: main_eval sample_env_def)
  have h2: "do_attach ?c = 0" and h3: "do_steal ?c = 0" by simp_all
  have h4: "allocate_pty sample_env ?w = Ret 5 ?wa"
    by (simp add: allocate_pty_def sample_env_def emit_def world0_def)
  have cr: "create sample_env ?c (length [''reptyr'', ''-l'']) [''reptyr'', ''-l''] 5 ?wa
      = ?w\<lparr>trace := [Get_pt, Unlockpt 5, Grantpt 5,
                       Fprintf 1 ''Opened a new pty: %s\<newline>'' [PStr ''/dev/pts/7''],
                       Fflush 1]\<rparr>"
    by (simp add: create_def sample_env_def emit_def world0_def)
  have m: "main sample_env [''reptyr'', ''-l''] ?w = Some (0, ?wend)"
    by (simp add: main_eval session_eval)
  note r = create_mode_relays[OF h1 h2 h3 h4, of ?wend]
  have first: "main sample_env [''reptyr'', ''-l''] ?w
      = session sample_env 5
          (?w\<lparr>trace := [Get_pt, Unlockpt 5, Grantpt 5,
                           Fprintf 1 ''Opened a new pty: %s\<newline>'' [PStr ''/dev/pts/7''],
                           Fflush 1]\<rparr>)"
    using r[THEN conjunct1] by (simp only: cr)
  have third: "\<exists>saved wr c wp.
        setup_raw sample_env (stack_termios sample_env)
          (?w\<lparr>trace := [Get_pt, Unlockpt 5, Grantpt 5,
                           Fprintf 1 ''Opened a new pty: %s\<newline>'' [PStr ''/dev/pts/7''],
                           Fflush 1]\<rparr>) = Ret saved wr
        \<and> do_proxy sample_env 5 wr = Some (c, wp)
        \<and> restore_termios saved wp = Some (Ret () ?wend)"
    using r[THEN conjunct2, THEN conjunct2, rule_format, OF m] by (simp only: cr)
  from first third show ?thesis by (simp add: world0_def)
qed

theorem create_mode_counterexample:
  "main sample_env [''reptyr'', ''-l'']
     (world0\<lparr>gwinsz_q := [Some \<lparr>ws_row = 24, ws_col = 80, ws_xpixel = 0, ws_ypixel = 0\<rparr>],
             swinsz_q := [0],
             pselect_q := [(False, Psel_ready False True), (False, Psel_ready False True)],
             read_q := [Rd_data ''hi'', Rd_data []], write_q := [Wr_ok 2], tcsetattr_q := [0]\<rparr>)
   = Some (0, world0\<lparr>trace :=
       [Get_pt, Unlockpt 5, Grantpt 5,
        Fprintf 1 ''Opened a new pty: %s\<newline>'' [PStr ''/dev/pts/7''], Fflush 1,
        Tcsetattr (cfmakeraw_r sample_env cooked), Sigprocmask_block 28, Sigaction 28,
        Ioctl_swinsz 5 \<lparr>ws_row = 24, ws_col = 80, ws_xpixel = 0, ws_ypixel = 0\<rparr>,
        Write 1 ''hi'', Tcsetattr cooked]\<rparr>)
   \<and> main sample_env [''reptyr'', ''-l'']
     (world0\<lparr>gwinsz_q := [Some \<lparr>ws_row = 24, ws_col = 80, ws_xpixel = 0, ws_ypixel = 0\<rparr>],
             swinsz_q := [0], tcsetattr_q := [0]\<rparr>)
   = None"
  by (simp add: main_eval session_eval)

text \<open>
  Claim C9 at a concrete run: \<^verbatim>\<open>reptyr -V -l\<close>. No command follows \<^verbatim>\<open>-l\<close>, but \<^verbatim>\<open>argc\<close> is
  3, so line 277 forks, and the child executes \<^verbatim>\<open>argv[2]\<close>, which is \<^verbatim>\<open>-l\<close> itself.
\<close>

theorem fork_without_command:
  "main sample_env [''reptyr'', ''-V'', ''-l'']
     (world0\<lparr>gwinsz_q := [Some \<lparr>ws_row = 24, ws_col = 80, ws_xpixel = 0, ws_ypixel = 0\<rparr>],
             swinsz_q := [0], pselect_q := [(False, Psel_ready False True)],
             read_q := [Rd_data []], tcsetattr_q := [0]\<rparr>)
   = Some (0, world0\<lparr>verbose := 1,
       trace :=
         [Get_pt, Unlockpt 5, Grantpt 5,
          Fprintf 1 ''Opened a new pty: %s\<newline>'' [PStr ''/dev/pts/7''], Fflush 1, Fork,
          Tcsetattr (cfmakeraw_r sample_env cooked), Sigprocmask_block 28, Sigaction 28,
          Ioctl_swinsz 5 \<lparr>ws_row = 24, ws_col = 80, ws_xpixel = 0, ws_ypixel = 0\<rparr>,
          Tcsetattr cooked],
       children := [[Setenv ''REPTYR_PTY'' ''/dev/pts/7'' 1, Close 5, Execvp ''-l'' [''-l'']]]\<rparr>)"
  by (simp add: main_eval session_eval)

section \<open>The resize flag\<close>
















end
